theory Spec2Isabelle
  imports Main "HOL-Library.AList"
begin

section \<open>JavaScript values\<close>

text \<open>
  The upload coordinator is JavaScript running as ES modules (\<^verbatim>\<open>.mjs\<close>). The model keeps
  the values the code computes with: numbers produced by \<^verbatim>\<open>parseInt\<close> (an integer or NaN),
  strings, optional request fields (\<^verbatim>\<open>undefined\<close> is \<open>None\<close>), byte buffers, and thrown
  errors as values of a sum type.
\<close>

datatype jsnum = NaN | Num int

type_synonym buffer = "char list"

datatype error = Error string | ReferenceError string | SystemError string | TypeError string

fun message :: "error \<Rightarrow> string" where
  "message (Error m) = m"
| "message (ReferenceError m) = m"
| "message (SystemError m) = m"
| "message (TypeError m) = m"

subsection \<open>parseInt and number formatting\<close>

text \<open>
  \<^verbatim>\<open>parseInt(string)\<close> with no radix, after ECMAScript: strip leading white space, read a
  sign, switch to radix 16 on a \<^verbatim>\<open>0x\<close> prefix, take the longest prefix of digits; NaN when
  that prefix is empty. Characters are bytes here, so only the ASCII white space is
  covered, and the result is the exact integer (a double is exact below \<open>2^53\<close>).
\<close>

definition isWhiteSpace :: "char \<Rightarrow> bool" where
  "isWhiteSpace c = (c \<in> set [CHR 0x09, CHR 0x0A, CHR 0x0B, CHR 0x0C, CHR 0x0D, CHR '' ''])"

definition digitValue :: "char \<Rightarrow> nat option" where
  "digitValue c =
     (let n = (of_char c :: nat) in
      if 48 \<le> n \<and> n \<le> 57 then Some (n - 48)
      else if 97 \<le> n \<and> n \<le> 122 then Some (n - 87)
      else if 65 \<le> n \<and> n \<le> 90 then Some (n - 55)
      else None)"

definition digitOf :: "char \<Rightarrow> nat" where
  "digitOf c = (case digitValue c of None \<Rightarrow> 0 | Some d \<Rightarrow> d)"

definition isRadixDigit :: "nat \<Rightarrow> char \<Rightarrow> bool" where
  "isRadixDigit R c = (case digitValue c of None \<Rightarrow> False | Some d \<Rightarrow> d < R)"

definition parseInt :: "string \<Rightarrow> jsnum" where
  "parseInt inputString =
     (let S = dropWhile isWhiteSpace inputString;
          sign = (if take 1 S = ''-'' then - 1 else (1::int));
          S1 = (if take 1 S = ''+'' \<or> take 1 S = ''-'' then drop 1 S else S);
          hex = (take 2 S1 = ''0x'' \<or> take 2 S1 = ''0X'');
          R = (if hex then 16 else 10);
          S2 = (if hex then drop 2 S1 else S1);
          Z = takeWhile (isRadixDigit R) S2
      in if Z = [] then NaN
         else Num (sign * int (foldl (\<lambda>a c. a * R + digitOf c) 0 Z)))"

text \<open>A request field that is absent is \<^verbatim>\<open>undefined\<close>; \<^verbatim>\<open>parseInt(undefined)\<close> is NaN.\<close>

definition parseIntField :: "string option \<Rightarrow> jsnum" where
  "parseIntField v = (case v of None \<Rightarrow> NaN | Some s \<Rightarrow> parseInt s)"

text \<open>A number inside a template literal: decimal digits, a minus sign, or \<^verbatim>\<open>NaN\<close>.\<close>

fun digits :: "nat \<Rightarrow> string" where
  "digits n =
     (if n < 10 then [char_of (48 + n)]
      else digits (n div 10) @ [char_of (48 + n mod 10)])"

declare digits.simps [simp del]

definition toString :: "jsnum \<Rightarrow> string" where
  "toString x =
     (case x of
        NaN \<Rightarrow> ''NaN''
      | Num i \<Rightarrow> if i < 0 then ''-'' @ digits (nat (- i)) else digits (nat i))"

definition strOf :: "string option \<Rightarrow> string" where
  "strOf v = (case v of None \<Rightarrow> ''undefined'' | Some s \<Rightarrow> s)"

subsection \<open>Identifier resolution\<close>

text \<open>
  Reading an identifier that no enclosing scope binds throws a ReferenceError. A scope is
  the list of names bound where the expression stands: the module's imports and
  declarations, the function's parameters and locals, and the globals of a Node ES
  module (which has no \<^verbatim>\<open>require\<close>).
\<close>

definition esmGlobals :: "string list" where
  "esmGlobals =
     [''console'', ''Date'', ''Error'', ''Map'', ''Set'', ''Object'', ''Array'', ''Promise'',
      ''Math'', ''String'', ''parseInt'', ''process'', ''setTimeout'', ''setInterval'',
      ''globalThis'', ''undefined'']"

definition resolveIdent :: "string list \<Rightarrow> string \<Rightarrow> error + unit" where
  "resolveIdent scope x =
     (if x \<in> set scope then Inr () else Inl (ReferenceError (x @ '' is not defined'')))"

section \<open>The file system\<close>

text \<open>
  The three working directories of \<^verbatim>\<open>directoryManager\<close>, and the files in them as an
  association list from (directory, file name) to contents. File names are taken as they
  are (no path separators inside), and a path is printed relative to the server's root.
\<close>

datatype dir = chunksDir | processingDir | uploadDir

type_synonym path = "dir \<times> string"

type_synonym fs = "(path \<times> buffer) list"

definition existsSync :: "path \<Rightarrow> fs \<Rightarrow> bool" where
  "existsSync p f = (case map_of f p of None \<Rightarrow> False | Some _ \<Rightarrow> True)"

definition unlink :: "path \<Rightarrow> fs \<Rightarrow> fs" where
  "unlink p f = AList.delete p f"

definition writeFile :: "path \<Rightarrow> buffer \<Rightarrow> fs \<Rightarrow> fs" where
  "writeFile p d f = AList.update p d f"

definition readdir :: "dir \<Rightarrow> fs \<Rightarrow> string list" where
  "readdir d f = map (\<lambda>e. snd (fst e)) (filter (\<lambda>e. fst (fst e) = d) f)"

definition pathString :: "path \<Rightarrow> string" where
  "pathString p =
     (case fst p of chunksDir \<Rightarrow> ''chunks/'' | processingDir \<Rightarrow> ''processing/''
      | uploadDir \<Rightarrow> ''uploads/'') @ snd p"

section \<open>Upload tracker (uploadTracker.mjs)\<close>

datatype upload_status = INITIALIZING | IN_PROGRESS | PROCESSING | COMPLETED | FAILED | CANCELLED

text \<open>
  One entry of \<^verbatim>\<open>chunksTracker\<close>. \<open>chunks\<close> is the JavaScript Set in insertion order;
  \<open>lastChunkReceived\<close> and \<open>chunksReceived\<close> are the properties \<^verbatim>\<open>updateUploadProgress\<close>
  assigns, \<open>error\<close> the one \<^verbatim>\<open>markUploadAsFailed\<close> assigns.
\<close>

record tracking =
  chunks :: "jsnum list"
  totalChunks :: jsnum
  filename :: "string option"
  timestamp :: nat
  status :: upload_status
  error :: "string option"
  lastChunkReceived :: "nat option"
  chunksReceived :: "nat option"

text \<open>One entry of the cleanup service's registry.\<close>

record cleanup_entry =
  reg_timestamp :: nat
  reg_temp :: string
  reg_chunks :: "string list"
  reg_final :: "string option"
  cleaned :: bool

record state =
  chunksTracker :: "string \<rightharpoonup> tracking"
  processingLock :: "string \<rightharpoonup> bool"
  files :: fs
  cleanupRegistry :: "string \<rightharpoonup> cleanup_entry"

text \<open>\<^verbatim>\<open>processingLock.get(uploadId)\<close> used as a condition.\<close>

definition lockHeld :: "state \<Rightarrow> string \<Rightarrow> bool" where
  "lockHeld st uploadId = (case processingLock st uploadId of None \<Rightarrow> False | Some b \<Rightarrow> b)"

text \<open>\<^verbatim>\<open>Set.prototype.add\<close>: a value already present is not added again.\<close>

definition setAdd :: "jsnum \<Rightarrow> jsnum list \<Rightarrow> jsnum list" where
  "setAdd x xs = (if x \<in> set xs then xs else xs @ [x])"

text \<open>\<^verbatim>\<open>tracking.chunks.size === tracking.totalChunks\<close>: never true for NaN.\<close>

definition sizeEq :: "nat \<Rightarrow> jsnum \<Rightarrow> bool" where
  "sizeEq n x = (case x of NaN \<Rightarrow> False | Num i \<Rightarrow> int n = i)"

datatype status_view =
    StatusFailure (vstatus: upload_status) (verror: string)
  | StatusView (vstatus: upload_status) (vchunksReceived: nat) (vtotalChunks: jsnum)
      (vfilename: "string option") (vuploadStartTime: nat) (vprocessingStatus: string)

definition getUploadStatus :: "string \<Rightarrow> state \<Rightarrow> status_view" where
  "getUploadStatus uploadId st =
     (case chunksTracker st uploadId of
        None \<Rightarrow> StatusFailure FAILED ''Upload not found''
      | Some tracking \<Rightarrow>
          (let isProcessing = lockHeld st uploadId;
               isComplete = sizeEq (length (chunks tracking)) (totalChunks tracking);
               status =
                 (if isProcessing then PROCESSING
                  else if isComplete then COMPLETED
                  else if length (chunks tracking) > 0 then IN_PROGRESS
                  else INITIALIZING)
           in StatusView status (length (chunks tracking)) (totalChunks tracking)
                (filename tracking) (timestamp tracking)
                (if isProcessing then ''active'' else ''inactive'')))"

definition updateUploadProgress :: "string \<Rightarrow> nat \<Rightarrow> nat \<Rightarrow> state \<Rightarrow> state" where
  "updateUploadProgress uploadId lastChunk received st =
     (case chunksTracker st uploadId of
        None \<Rightarrow> st
      | Some tracking \<Rightarrow>
          st\<lparr>chunksTracker := (chunksTracker st)(uploadId \<mapsto>
               tracking\<lparr>lastChunkReceived := Some lastChunk, chunksReceived := Some received\<rparr>)\<rparr>)"

definition markUploadAsFailed :: "string \<Rightarrow> string \<Rightarrow> state \<Rightarrow> state" where
  "markUploadAsFailed uploadId err st =
     (case chunksTracker st uploadId of
        None \<Rightarrow> st
      | Some tracking \<Rightarrow>
          st\<lparr>chunksTracker := (chunksTracker st)(uploadId \<mapsto>
               tracking\<lparr>status := FAILED, error := Some err\<rparr>)\<rparr>)"

text \<open>
  \<^verbatim>\<open>cleanupUploadChunks\<close>. Its first statement calls \<^verbatim>\<open>require\<close>, and its temp path reads
  \<^verbatim>\<open>processingDir\<close>, which the function never declares (it destructures \<^verbatim>\<open>chunksDir\<close>
  only); both are resolved against the names in scope.
\<close>

definition cleanupUploadChunks_scope :: "string list" where
  "cleanupUploadChunks_scope =
     [''uploadId'', ''tracking'', ''fs'', ''path'', ''chunksDir'',
      ''chunksTracker'', ''processingLock'', ''UploadStatus'', ''getUploadStatus'',
      ''cancelUpload'', ''cleanupUploadChunks'', ''updateUploadProgress'',
      ''markUploadAsFailed''] @ esmGlobals"

definition unlinkIfExists :: "path \<Rightarrow> fs \<Rightarrow> fs" where
  "unlinkIfExists p f = (if existsSync p f then unlink p f else f)"

definition cleanupUploadChunks :: "string \<Rightarrow> tracking \<Rightarrow> state \<Rightarrow> (error + unit) \<times> state" where
  "cleanupUploadChunks uploadId tracking st =
     (case resolveIdent cleanupUploadChunks_scope ''require'' of
        Inl e \<Rightarrow> (Inl e, st)
      | Inr _ \<Rightarrow>
          (let st1 = st\<lparr>files :=
                 fold (\<lambda>chunkNumber. unlinkIfExists (chunksDir, uploadId @ ''-'' @ toString chunkNumber))
                   (chunks tracking) (files st)\<rparr>
           in case resolveIdent cleanupUploadChunks_scope ''processingDir'' of
                Inl e \<Rightarrow> (Inl e, st1)
              | Inr _ \<Rightarrow>
                  (Inr (), st1\<lparr>files := unlinkIfExists (processingDir, ''temp_'' @ uploadId) (files st1)\<rparr>)))"

datatype cancel_result = Cancelled upload_status string

definition cancelUpload :: "string \<Rightarrow> state \<Rightarrow> (error + cancel_result) \<times> state" where
  "cancelUpload uploadId st =
     (case chunksTracker st uploadId of
        None \<Rightarrow> (Inl (Error ''Upload not found''), st)
      | Some tracking \<Rightarrow>
          if lockHeld st uploadId then (Inl (Error ''Cannot cancel upload while processing''), st)
          else
            (case cleanupUploadChunks uploadId tracking st of
               (Inl e, st1) \<Rightarrow> (Inl (Error (''Failed to cancel upload: '' @ message e)), st1)
             | (Inr _, st1) \<Rightarrow>
                 (Inr (Cancelled CANCELLED ''Upload cancelled successfully''),
                  st1\<lparr>chunksTracker := (chunksTracker st1)(uploadId := None),
                      processingLock := (processingLock st1)(uploadId := None)\<rparr>)))"

section \<open>Receiving a chunk (multerConfig.mjs)\<close>

text \<open>
  The fields of the multipart body as the handler reads them (absent fields are \<open>None\<close>),
  and whether the request carried a file.
\<close>

record request =
  req_file :: bool
  body_uploadId :: "string option"
  body_chunkNumber :: "string option"
  body_totalChunks :: "string option"
  body_originalFilename :: "string option"
  body_preserveOriginal :: "string option"
  body_imageQuality :: "string option"
  body_processingType :: "string option"

text \<open>
  The disk storage of \<^verbatim>\<open>configureMulter\<close>: the file goes to the chunk directory under the
  name \<^verbatim>\<open>${uploadId}-${chunkNumber}\<close>, built from the raw body fields; a chunk above the
  20MB limit is refused. An existing file of that name is overwritten.
\<close>

definition multerFilename :: "request \<Rightarrow> error + string" where
  "multerFilename req =
     (if body_uploadId req = None \<or> body_uploadId req = Some [] \<or> body_chunkNumber req = None
      then Inl (Error ''Missing required upload information'')
      else Inr (strOf (body_uploadId req) @ ''-'' @ strOf (body_chunkNumber req)))"

definition fileSizeLimit :: nat where
  "fileSizeLimit = 20 * 1024 * 1024"

definition multerStore :: "request \<Rightarrow> buffer \<Rightarrow> fs \<Rightarrow> error + fs" where
  "multerStore req payload f =
     (case multerFilename req of
        Inl e \<Rightarrow> Inl e
      | Inr name \<Rightarrow>
          if length payload > fileSizeLimit then Inl (Error ''File too large'')
          else Inr (writeFile (chunksDir, name) payload f))"

section \<open>Chunk combiner (chunkProcessor.mjs)\<close>

text \<open>
  A promise is settled once: the first call of \<^verbatim>\<open>resolve\<close> or \<^verbatim>\<open>reject\<close> fixes its
  outcome and later calls do nothing. \<open>None\<close> is a promise still pending.
\<close>

definition settle :: "(error + unit) \<Rightarrow> (error + unit) option \<Rightarrow> (error + unit) option" where
  "settle r p = (case p of None \<Rightarrow> Some r | Some x \<Rightarrow> Some x)"

definition outcome :: "(error + unit) option \<Rightarrow> (error + unit) \<Rightarrow> error + unit" where
  "outcome p r = (case p of None \<Rightarrow> r | Some x \<Rightarrow> x)"

text \<open>The bound of \<^verbatim>\<open>for (let i = 0; i < totalChunks; i++)\<close>.\<close>

definition loopBound :: "jsnum \<Rightarrow> nat" where
  "loopBound x = (case x of NaN \<Rightarrow> 0 | Num i \<Rightarrow> nat i)"

definition chunkPath :: "string \<Rightarrow> nat \<Rightarrow> path" where
  "chunkPath uploadId i = (chunksDir, uploadId @ ''-'' @ digits i)"

text \<open>
  \<^verbatim>\<open>fs.createWriteStream(path)\<close> creates or truncates the file; \<^verbatim>\<open>writeStream.write(data)\<close>
  appends to it.
\<close>

definition createWriteStream :: "path \<Rightarrow> fs \<Rightarrow> fs" where
  "createWriteStream p f = writeFile p [] f"

definition streamWrite :: "path \<Rightarrow> buffer \<Rightarrow> fs \<Rightarrow> fs" where
  "streamWrite p d f = writeFile p ((case map_of f p of None \<Rightarrow> [] | Some c \<Rightarrow> c) @ d) f"

text \<open>
  The first loop of \<^verbatim>\<open>combineChunks\<close>: one \<^verbatim>\<open>access\<close> per chunk, whose \<^verbatim>\<open>catch\<close> handler
  calls \<^verbatim>\<open>reject\<close> of the outer promise. The handler returns normally, so each promise
  pushed to \<^verbatim>\<open>promises\<close> is fulfilled either way. The checks are taken in index order.
\<close>

definition accessChecks :: "string \<Rightarrow> nat \<Rightarrow> fs \<Rightarrow> (error + unit) option" where
  "accessChecks uploadId nchunks f =
     fold (\<lambda>i p. if existsSync (chunkPath uploadId i) f then p
                  else settle (Inl (Error (''Missing chunk file: '' @ pathString (chunkPath uploadId i)))) p)
       [0..<nchunks] None"

text \<open>
  The callback of \<^verbatim>\<open>Promise.all(promises).then\<close>: read each chunk and write it to the
  stream, in index order. \<^verbatim>\<open>readFile\<close> of a missing file throws and ends the loop.
\<close>

fun writeLoop :: "string \<Rightarrow> path \<Rightarrow> nat list \<Rightarrow> fs \<Rightarrow> (error + unit) \<times> fs" where
  "writeLoop uploadId dest [] f = (Inr (), f)"
| "writeLoop uploadId dest (i # rest) f =
     (case map_of f (chunkPath uploadId i) of
        None \<Rightarrow>
          (Inl (SystemError (''ENOENT: no such file or directory, open '' @ pathString (chunkPath uploadId i))), f)
      | Some chunkData \<Rightarrow> writeLoop uploadId dest rest (streamWrite dest chunkData f))"

text \<open>
  \<^verbatim>\<open>combineChunks\<close>: the outer promise takes the first settlement, from a failed access
  check, from the end of the write loop (\<^verbatim>\<open>finish\<close>), or from its error
  (\<^verbatim>\<open>.catch(reject)\<close>). \<^verbatim>\<open>Promise.all\<close> sees fulfilled promises only, so the write loop
  always runs.
\<close>

definition combineChunks :: "string \<Rightarrow> jsnum \<Rightarrow> path \<Rightarrow> fs \<Rightarrow> (error + unit) \<times> fs" where
  "combineChunks uploadId nchunks dest f =
     (let p = accessChecks uploadId (loopBound nchunks) f;
          w = writeLoop uploadId dest [0..<loopBound nchunks] f
      in (outcome p (fst w), snd w))"

section \<open>Cleanup service (cleanupService.mjs)\<close>

definition registerForCleanup ::
  "string \<Rightarrow> nat \<Rightarrow> string \<Rightarrow> string list \<Rightarrow> string option \<Rightarrow> state \<Rightarrow> state" where
  "registerForCleanup uploadId now temp chunkNames final st =
     st\<lparr>cleanupRegistry := (cleanupRegistry st)(uploadId \<mapsto>
          \<lparr>reg_timestamp = now, reg_temp = temp, reg_chunks = chunkNames,
           reg_final = final, cleaned = False\<rparr>)\<rparr>"

definition startsWith :: "string \<Rightarrow> string \<Rightarrow> bool" where
  "startsWith s pre = (take (length pre) s = pre)"

text \<open>
  \<^verbatim>\<open>cleanupUpload\<close>: delete every file of the chunk directory whose name starts with
  \<^verbatim>\<open>${uploadId}-\<close>, the temp file, and, when the upload failed and a final file was
  registered, the final file; mark the entry cleaned. Deletion errors are swallowed. The
  removal of the entry one hour later is a timer and is not modelled.
\<close>

definition cleanupUpload :: "string \<Rightarrow> bool \<Rightarrow> state \<Rightarrow> state" where
  "cleanupUpload uploadId success st =
     (let registry = cleanupRegistry st uploadId;
          f1 = fold (\<lambda>file f. if startsWith file (uploadId @ ''-'') then unlink (chunksDir, file) f else f)
                 (readdir chunksDir (files st)) (files st);
          f2 = unlink (processingDir, ''temp_'' @ uploadId) f1;
          f3 = (case registry of
                  None \<Rightarrow> f2
                | Some entry \<Rightarrow>
                    (case reg_final entry of
                       None \<Rightarrow> f2
                     | Some final \<Rightarrow>
                         if success \<or> final = [] then f2 else unlink (uploadDir, final) f2))
      in st\<lparr>files := f3,
            cleanupRegistry :=
              (case registry of
                 None \<Rightarrow> cleanupRegistry st
               | Some entry \<Rightarrow> (cleanupRegistry st)(uploadId \<mapsto> entry\<lparr>cleaned := True\<rparr>))\<rparr>)"

section \<open>The combine pipeline (chunkProcessor.mjs)\<close>

record options =
  opt_type :: string
  opt_quality :: "jsnum option"
  opt_metadata :: bool

text \<open>
  The result of \<^verbatim>\<open>imageProcessor.processImage\<close>, which wraps the external image library:
  the pipeline reads its \<^verbatim>\<open>success\<close> and \<^verbatim>\<open>error\<close> properties and spreads the rest.
\<close>

record process_result =
  success :: bool
  perror :: "string option"
  ppath :: path
  processingType :: string

text \<open>
  What one run of the pipeline takes from outside: the clock, the random prefix of the
  final file name, and the transform (input path, output path, options, files).
\<close>

record env =
  now :: nat
  finalRandom :: string
  transform :: "path \<Rightarrow> path \<Rightarrow> options \<Rightarrow> fs \<Rightarrow> (error + process_result) \<times> fs"

text \<open>The object \<^verbatim>\<open>combineAndProcessChunks\<close> returns: the final file name and the transform's result.\<close>

datatype pipeline_result = PipelineResult (pr_filename: string) (pr_result: process_result)

text \<open>
  The names bound where \<^verbatim>\<open>combineAndProcessChunks\<close> builds its return value: the module's
  imports and functions, the parameters and the locals of the function.
\<close>

definition combineAndProcessChunks_scope :: "string list" where
  "combineAndProcessChunks_scope =
     [''fs'', ''path'', ''crypto'', ''imageProcessor'', ''getDirectories'', ''s3Service'',
      ''cleanupService'', ''combineAndProcessChunks'', ''combineChunks'', ''cleanupTempFiles'',
      ''handleProcessingError'', ''uploadId'', ''totalChunks'', ''originalFilename'', ''options'',
      ''chunksDir'', ''processingDir'', ''uploadDir'', ''tempFilePath'', ''writeStream'',
      ''finalFilename'', ''finalPath'', ''result''] @ esmGlobals"

definition chunkNames :: "string \<Rightarrow> jsnum \<Rightarrow> string list" where
  "chunkNames uploadId nchunks = map (\<lambda>i. uploadId @ ''-'' @ digits i) [0..<loopBound nchunks]"

text \<open>The body of the \<^verbatim>\<open>try\<close> block.\<close>

definition combineAndProcessChunks_try ::
  "env \<Rightarrow> string \<Rightarrow> jsnum \<Rightarrow> string option \<Rightarrow> options \<Rightarrow> path \<Rightarrow> state
    \<Rightarrow> (error + pipeline_result) \<times> state" where
  "combineAndProcessChunks_try e uploadId nchunks originalFilename opts tempFilePath st =
     (let st1 = registerForCleanup uploadId (now e) (''temp_'' @ uploadId) (chunkNames uploadId nchunks) None st;
          c = combineChunks uploadId nchunks tempFilePath (files st1);
          st2 = st1\<lparr>files := snd c\<rparr>
      in case fst c of
           Inl err \<Rightarrow> (Inl err, st2)
         | Inr _ \<Rightarrow>
             (let finalFilename = finalRandom e @ ''-'' @ strOf originalFilename;
                  finalPath = (uploadDir, finalFilename);
                  st3 = registerForCleanup uploadId (now e) (''temp_'' @ uploadId)
                          (chunkNames uploadId nchunks) (Some finalFilename) st2;
                  t = transform e tempFilePath finalPath opts (files st3);
                  st4 = st3\<lparr>files := snd t\<rparr>
              in case fst t of
                   Inl err \<Rightarrow> (Inl err, st4)
                 | Inr result \<Rightarrow>
                     if \<not> success result
                     then (Inl (Error (''Failed to process file: '' @ strOf (perror result))), st4)
                     else
                       (let st5 = cleanupUpload uploadId True st4
                        in case resolveIdent combineAndProcessChunks_scope ''syncTaskId'' of
                             Inl err \<Rightarrow> (Inl err, st5)
                           | Inr _ \<Rightarrow>
                               (case resolveIdent combineAndProcessChunks_scope ''s3Key'' of
                                  Inl err \<Rightarrow> (Inl err, st5)
                                | Inr _ \<Rightarrow> (Inr (PipelineResult finalFilename result), st5)))))"

text \<open>The whole function: open the write stream, run the body, and on any error clean up as failed and rethrow.\<close>

definition combineAndProcessChunks ::
  "env \<Rightarrow> string \<Rightarrow> jsnum \<Rightarrow> string option \<Rightarrow> options \<Rightarrow> state
    \<Rightarrow> (error + pipeline_result) \<times> state" where
  "combineAndProcessChunks e uploadId nchunks originalFilename opts st =
     (let tempFilePath = (processingDir, ''temp_'' @ uploadId);
          st0 = st\<lparr>files := createWriteStream tempFilePath (files st)\<rparr>;
          r = combineAndProcessChunks_try e uploadId nchunks originalFilename opts tempFilePath st0
      in case fst r of
           Inr v \<Rightarrow> (Inr v, snd r)
         | Inl err \<Rightarrow> (Inl err, cleanupUpload uploadId False (snd r)))"

section \<open>Upload controller (uploadController.mjs)\<close>

definition initializeUpload :: "string \<Rightarrow> nat \<Rightarrow> state \<Rightarrow> string \<times> state" where
  "initializeUpload uploadId t st =
     (uploadId,
      st\<lparr>chunksTracker := (chunksTracker st)(uploadId \<mapsto>
           \<lparr>chunks = [], totalChunks = Num 0, filename = Some [], timestamp = t,
            status = INITIALIZING, error = None, lastChunkReceived = None,
            chunksReceived = None\<rparr>)\<rparr>)"

datatype response =
    ChunkAck (ack_message: string) (ack_chunksReceived: nat) (ack_totalChunks: jsnum)
  | UploadCompleted (done_message: string) (done_result: pipeline_result)

definition processingOptions :: "request \<Rightarrow> options" where
  "processingOptions req =
     \<lparr>opt_type =
        (if body_preserveOriginal req = Some ''true'' then ''preserve''
         else (case body_processingType req of
                 None \<Rightarrow> ''auto''
               | Some s \<Rightarrow> if s = [] then ''auto'' else s)),
      opt_quality =
        (case body_imageQuality req of
           None \<Rightarrow> None
         | Some s \<Rightarrow> if s = [] then None else Some (parseInt s)),
      opt_metadata = True\<rparr>"

text \<open>
  \<^verbatim>\<open>handleChunkUpload\<close> has one \<^verbatim>\<open>await\<close>, on the pipeline. Everything before it runs
  without interruption: it either finishes the request (\<open>Done\<close>) or has taken the lock and
  waits for the pipeline (\<open>AwaitCombine\<close>, with the pipeline's arguments).
\<close>

datatype entered =
    Done "error + response"
  | AwaitCombine string jsnum "string option" options

definition handleChunkUpload_enter :: "nat \<Rightarrow> error option \<Rightarrow> request \<Rightarrow> state \<Rightarrow> entered \<times> state" where
  "handleChunkUpload_enter t err req st =
     (case err of
        Some e \<Rightarrow> (Done (Inl (Error (message e))), st)
      | None \<Rightarrow>
          if \<not> req_file req then (Done (Inl (Error ''No file received'')), st)
          else
            (case body_uploadId req of
               None \<Rightarrow> (Done (Inl (Error ''Invalid upload ID'')), st)
             | Some uploadId \<Rightarrow>
                 (case chunksTracker st uploadId of
                    None \<Rightarrow> (Done (Inl (Error ''Invalid upload ID'')), st)
                  | Some tracking \<Rightarrow>
                      (let chunkNum = parseIntField (body_chunkNumber req);
                           tracking1 = tracking\<lparr>chunks := setAdd chunkNum (chunks tracking),
                                               totalChunks := parseIntField (body_totalChunks req),
                                               filename := body_originalFilename req\<rparr>;
                           st1 = st\<lparr>chunksTracker := (chunksTracker st)(uploadId \<mapsto> tracking1)\<rparr>;
                           st2 = updateUploadProgress uploadId t (length (chunks tracking1)) st1
                       in if sizeEq (length (chunks tracking1)) (totalChunks tracking1) then
                            if \<not> lockHeld st2 uploadId then
                              (AwaitCombine uploadId (totalChunks tracking1) (filename tracking1)
                                 (processingOptions req),
                               st2\<lparr>processingLock := (processingLock st2)(uploadId \<mapsto> True)\<rparr>)
                            else
                              (Done (Inr (ChunkAck ''Chunk received, processing in progress''
                                            (length (chunks tracking1)) (totalChunks tracking1))), st2)
                          else
                            (Done (Inr (ChunkAck ''Chunk received successfully''
                                          (length (chunks tracking1)) (totalChunks tracking1))), st2)))))"

text \<open>
  What runs once the awaited pipeline has settled: on success both entries are deleted;
  on failure the inner \<^verbatim>\<open>catch\<close> deletes the lock entry and marks the session failed, and
  the outer \<^verbatim>\<open>catch\<close> marks it failed again.
\<close>

definition handleChunkUpload_resume ::
  "string \<Rightarrow> error + pipeline_result \<Rightarrow> state \<Rightarrow> (error + response) \<times> state" where
  "handleChunkUpload_resume uploadId r st =
     (case r of
        Inr result \<Rightarrow>
          (Inr (UploadCompleted ''Upload completed successfully'' result),
           st\<lparr>chunksTracker := (chunksTracker st)(uploadId := None),
              processingLock := (processingLock st)(uploadId := None)\<rparr>)
      | Inl e \<Rightarrow>
          (let st1 = st\<lparr>processingLock := (processingLock st)(uploadId := None)\<rparr>;
               st2 = markUploadAsFailed uploadId (message e) st1;
               st3 = markUploadAsFailed uploadId (message e) st2
           in (Inl e, st3)))"

text \<open>One request handled with nothing else running in between.\<close>

definition handleChunkUpload :: "env \<Rightarrow> error option \<Rightarrow> request \<Rightarrow> state \<Rightarrow> (error + response) \<times> state" where
  "handleChunkUpload e err req st =
     (case handleChunkUpload_enter (now e) err req st of
        (Done r, st1) \<Rightarrow> (r, st1)
      | (AwaitCombine uploadId nchunks fname opts, st1) \<Rightarrow>
          (let p = combineAndProcessChunks e uploadId nchunks fname opts st1
           in handleChunkUpload_resume uploadId (fst p) (snd p)))"

text \<open>A sequence of chunk requests, each handled to its end before the next.\<close>

fun receiveChunks :: "(env \<times> request) list \<Rightarrow> state \<Rightarrow> state" where
  "receiveChunks [] st = st"
| "receiveChunks (c # cs) st = receiveChunks cs (snd (handleChunkUpload (fst c) None (snd c) st))"

section \<open>Interleaved requests\<close>

text \<open>
  Node runs each handler without interruption up to an \<^verbatim>\<open>await\<close>. A run of the server is
  therefore a sequence of events, each one such uninterrupted section: an upload is
  initialised, a chunk request runs up to its end or up to the awaited pipeline, an awaited
  pipeline settles (with any outcome) and its handler finishes, an upload is cancelled, or
  the files and the cleanup registry change (chunks being stored, pipelines and sweeps at
  work). The second component lists the upload identifiers of the pipelines that have been
  started and have not settled yet.
\<close>

datatype event =
    Initialize string nat
  | ChunkRequest nat "error option" request
  | PipelineSettles string "error + pipeline_result"
  | Cancel string
  | FileActivity fs "string \<rightharpoonup> cleanup_entry"

definition fire :: "event \<Rightarrow> state \<times> string list \<Rightarrow> (state \<times> string list) option" where
  "fire ev s =
     (let st = fst s; running = snd s in
      case ev of
        Initialize uploadId t \<Rightarrow> Some (snd (initializeUpload uploadId t st), running)
      | ChunkRequest t err req \<Rightarrow>
          (case handleChunkUpload_enter t err req st of
             (Done r, st1) \<Rightarrow> Some (st1, running)
           | (AwaitCombine uploadId nchunks fname opts, st1) \<Rightarrow> Some (st1, uploadId # running))
      | PipelineSettles uploadId r \<Rightarrow>
          if uploadId \<in> set running
          then Some (snd (handleChunkUpload_resume uploadId r st), remove1 uploadId running)
          else None
      | Cancel uploadId \<Rightarrow> Some (snd (cancelUpload uploadId st), running)
      | FileActivity f c \<Rightarrow> Some (st\<lparr>files := f, cleanupRegistry := c\<rparr>, running))"

fun execute :: "event list \<Rightarrow> state \<times> string list \<Rightarrow> (state \<times> string list) option" where
  "execute [] s = Some s"
| "execute (ev # evs) s = (case fire ev s of None \<Rightarrow> None | Some s1 \<Rightarrow> execute evs s1)"

definition initialState :: state where
  "initialState =
     \<lparr>chunksTracker = Map.empty, processingLock = Map.empty, files = [],
      cleanupRegistry = Map.empty\<rparr>"

text \<open>The condition of line 69 for a request: with its chunk added, the set has \<^verbatim>\<open>totalChunks\<close> elements.\<close>

definition completesSet :: "request \<Rightarrow> state \<Rightarrow> bool" where
  "completesSet req st =
     (case body_uploadId req of
        None \<Rightarrow> False
      | Some uploadId \<Rightarrow>
          (case chunksTracker st uploadId of
             None \<Rightarrow> False
           | Some tracking \<Rightarrow>
               sizeEq (length (setAdd (parseIntField (body_chunkNumber req)) (chunks tracking)))
                 (parseIntField (body_totalChunks req))))"

section \<open>Clients and example runs\<close>

text \<open>
  The request a client sends for chunk \<open>i\<close> of \<open>n\<close>: the numbers arrive as their decimal
  strings.
\<close>

definition chunkRequest :: "string \<Rightarrow> nat \<Rightarrow> nat \<Rightarrow> string \<Rightarrow> request" where
  "chunkRequest uploadId i n name =
     \<lparr>req_file = True, body_uploadId = Some uploadId, body_chunkNumber = Some (digits i),
      body_totalChunks = Some (digits n), body_originalFilename = Some name,
      body_preserveOriginal = None, body_imageQuality = None, body_processingType = None\<rparr>"

text \<open>
  The chunk files after a list of submissions (request and payload) has been stored, in
  arrival order; a submission the storage refuses leaves the files as they are.
\<close>

fun storeChunks :: "(request \<times> buffer) list \<Rightarrow> fs \<Rightarrow> fs" where
  "storeChunks [] f = f"
| "storeChunks (s # rest) f =
     storeChunks rest (case multerStore (fst s) (snd s) f of Inl _ \<Rightarrow> f | Inr f1 \<Rightarrow> f1)"

text \<open>A transform that copies its input to its output and reports success.\<close>

definition copyTransform :: "path \<Rightarrow> path \<Rightarrow> options \<Rightarrow> fs \<Rightarrow> (error + process_result) \<times> fs" where
  "copyTransform inputPath outputPath opts f =
     (Inr \<lparr>success = True, perror = None, ppath = outputPath, processingType = ''preserved''\<rparr>,
      writeFile outputPath (case map_of f inputPath of None \<Rightarrow> [] | Some c \<Rightarrow> c) f)"

definition exampleEnv :: env where
  "exampleEnv = \<lparr>now = 5, finalRandom = ''0a1b2c3d4e5f6071'', transform = copyTransform\<rparr>"

text \<open>A session with its one chunk received, marked failed by an earlier combine.\<close>

definition exampleTracking :: tracking where
  "exampleTracking =
     \<lparr>chunks = [Num 0], totalChunks = Num 1, filename = Some ''a.png'', timestamp = 1,
      status = FAILED, error = Some ''Missing chunk file: chunks/u1-0'',
      lastChunkReceived = Some 2, chunksReceived = Some 1\<rparr>"

definition exampleState :: "bool option \<Rightarrow> state" where
  "exampleState lock =
     \<lparr>chunksTracker = [''u1'' \<mapsto> exampleTracking],
      processingLock = (\<lambda>u. if u = ''u1'' then lock else None),
      files = [((chunksDir, ''u1-0''), ''abc'')],
      cleanupRegistry = Map.empty\<rparr>"

text \<open>A fresh upload \<^verbatim>\<open>u1\<close> whose first chunk file is already in the chunk directory.\<close>

definition freshState :: state where
  "freshState = (snd (initializeUpload ''u1'' 0 initialState))\<lparr>files := [((chunksDir, ''u1-0''), ''abc'')]\<rparr>"

text \<open>Two events: the upload \<^verbatim>\<open>u1\<close> is initialised and its only chunk arrives.\<close>

definition exampleEvents :: "event list" where
  "exampleEvents = [Initialize ''u1'' 0, ChunkRequest 1 None (chunkRequest ''u1'' 0 1 ''a.png'')]"

text \<open>A fresh upload \<^verbatim>\<open>u1\<close> with two stored chunk files whose indices are not below 1.\<close>

definition outOfRangeStart :: state where
  "outOfRangeStart =
     (snd (initializeUpload ''u1'' 0 initialState))
       \<lparr>files := [((chunksDir, ''u1-5''), ''abc''), ((chunksDir, ''u1-6''), ''def'')]\<rparr>"

section \<open>Invariants\<close>

text \<open>
  The gate invariant of a run: no upload identifier has two pipelines in flight, and the
  lock of every upload with a pipeline in flight is held.
\<close>

definition gateInvariant :: "state \<times> string list \<Rightarrow> bool" where
  "gateInvariant s = (distinct (snd s) \<and> list_all (lockHeld (fst s)) (snd s))"

text \<open>
  The received set as a list without repetition whose elements are indices below \<open>N\<close>;
  a session whose received set is such and whose \<^verbatim>\<open>totalChunks\<close> is \<open>N\<close> (or still the
  initial 0 with nothing received); and the comparison \<^verbatim>\<open>chunks.size <= totalChunks\<close>.
\<close>

definition inRange :: "nat \<Rightarrow> jsnum list \<Rightarrow> bool" where
  "inRange N xs = (distinct xs \<and> set xs \<subseteq> (\<lambda>i. Num (int i)) ` {0..<N})"

definition withinDeclared :: "nat \<Rightarrow> tracking \<Rightarrow> bool" where
  "withinDeclared N t =
     (inRange N (chunks t) \<and> (chunks t = [] \<and> totalChunks t = Num 0 \<or> totalChunks t = Num (int N)))"

definition sizeWithinTotal :: "tracking \<Rightarrow> bool" where
  "sizeWithinTotal t = (case totalChunks t of NaN \<Rightarrow> False | Num m \<Rightarrow> int (length (chunks t)) \<le> m)"

section \<open>Sync queue (s3Service.mjs)\<close>

datatype sync_status = SYNC_PENDING | SYNC_SYNCING | SYNC_COMPLETED | SYNC_FAILED

record file_info =
  fi_filePath :: string
  fi_s3Key :: string
  fi_metadata :: "(string \<times> string) list"

text \<open>
  One entry of \<^verbatim>\<open>syncRegistry\<close>; \<^verbatim>\<open>error\<close> and \<^verbatim>\<open>completedTime\<close> are absent until
  \<^verbatim>\<open>updateSyncStatus\<close> assigns them.
\<close>

record sync_info =
  sync_status :: sync_status
  sync_startTime :: nat
  sync_fileInfo :: file_info
  sync_error :: "string option"
  sync_completedTime :: "nat option"

datatype promise = Pending | Resolved string | Rejected error

text \<open>
  The service: whether \<^verbatim>\<open>this.queue\<close> has been assigned (\<^verbatim>\<open>initializeQueue\<close> is started
  by the constructor and not awaited), the registry, and the promises \<^verbatim>\<open>queueForSync\<close> has
  returned, each named by the task identifier its executor generated. Two components
  record what has been exchanged with the external queue engine: the tasks handed to
  \<^verbatim>\<open>queue.push\<close>, each with the task identifier its callback closes over, and the tasks for
  which the engine has run the transfer (its handler, \<^verbatim>\<open>uploadToS3\<close>).
\<close>

record s3service =
  queueReady :: bool
  syncRegistry :: "string \<rightharpoonup> sync_info"
  promises :: "string \<rightharpoonup> promise"
  pushed :: "(string \<times> file_info) list"
  transfers :: "string list"

text \<open>
  \<^verbatim>\<open>sync_${Date.now()}_${Math.random().toString(36).substr(2, 9)}\<close>, from the clock
  and the random suffix.
\<close>

definition makeTaskId :: "nat \<Rightarrow> string \<Rightarrow> string" where
  "makeTaskId t rnd = ''sync_'' @ digits t @ ''_'' @ rnd"

definition updateSyncStatus :: "string \<Rightarrow> sync_status \<Rightarrow> string option \<Rightarrow> nat \<Rightarrow> s3service \<Rightarrow> s3service" where
  "updateSyncStatus taskId st err t s =
     (case syncRegistry s taskId of
        None \<Rightarrow> s
      | Some syncInfo \<Rightarrow>
          s\<lparr>syncRegistry := (syncRegistry s)(taskId \<mapsto>
               syncInfo\<lparr>sync_status := st, sync_error := err, sync_completedTime := Some t\<rparr>)\<rparr>)"

text \<open>A promise is settled once; \<^verbatim>\<open>resolve\<close> and \<^verbatim>\<open>reject\<close> on a settled promise do nothing.\<close>

definition settlePromise :: "string \<Rightarrow> promise \<Rightarrow> s3service \<Rightarrow> s3service" where
  "settlePromise taskId v s =
     (case promises s taskId of
        Some Pending \<Rightarrow> s\<lparr>promises := (promises s)(taskId \<mapsto> v)\<rparr>
      | _ \<Rightarrow> s)"

text \<open>
  The executor of the promise \<^verbatim>\<open>queueForSync\<close> returns, which runs at once: generate the
  identifier, set the registry entry, push the task with the callback. With \<^verbatim>\<open>this.queue\<close>
  not yet assigned the push throws a TypeError and the promise is rejected. The result names
  the returned promise by the identifier.
\<close>

definition queueForSync :: "nat \<Rightarrow> string \<Rightarrow> file_info \<Rightarrow> s3service \<Rightarrow> string \<times> s3service" where
  "queueForSync t rnd fileInfo s =
     (let taskId = makeTaskId t rnd;
          s1 = s\<lparr>syncRegistry := (syncRegistry s)(taskId \<mapsto>
                  \<lparr>sync_status = SYNC_PENDING, sync_startTime = t, sync_fileInfo = fileInfo,
                   sync_error = None, sync_completedTime = None\<rparr>)\<rparr>
      in if queueReady s1
         then (taskId, s1\<lparr>promises := (promises s1)(taskId \<mapsto> Pending),
                          pushed := pushed s1 @ [(taskId, fileInfo)]\<rparr>)
         else (taskId, s1\<lparr>promises := (promises s1)(taskId \<mapsto>
                  Rejected (TypeError ''Cannot read properties of undefined''))\<rparr>))"

text \<open>The callback handed to \<^verbatim>\<open>queue.push\<close>, for the call that generated \<open>taskId\<close>.\<close>

definition pushCallback :: "nat \<Rightarrow> string \<Rightarrow> error option \<Rightarrow> s3service \<Rightarrow> s3service" where
  "pushCallback t taskId err s =
     (case err of
        Some e \<Rightarrow> settlePromise taskId (Rejected e) (updateSyncStatus taskId SYNC_FAILED (Some (message e)) t s)
      | None \<Rightarrow> settlePromise taskId (Resolved taskId) s)"

text \<open>
  The queue engine is an external library, so what it does and when is the environment's
  choice: it may run the transfer of a task that was pushed, invoke the push callback of a
  task that was pushed (with or without an error), and emit \<^verbatim>\<open>task_finish\<close> or
  \<^verbatim>\<open>task_failed\<close> with an identifier of its own, which \<^verbatim>\<open>setupQueueEvents\<close> passes to
  \<^verbatim>\<open>updateSyncStatus\<close>. An event for a task that was never pushed changes nothing.
\<close>

datatype sync_event =
    Submit nat string file_info
  | TransferRuns string
  | PushCallback nat string "error option"
  | TaskFinish nat string
  | TaskFailed nat string error

definition wasPushed :: "string \<Rightarrow> s3service \<Rightarrow> bool" where
  "wasPushed taskId s = (taskId \<in> set (map fst (pushed s)))"

definition fireSync :: "sync_event \<Rightarrow> s3service \<Rightarrow> s3service" where
  "fireSync ev s =
     (case ev of
        Submit t rnd fileInfo \<Rightarrow> snd (queueForSync t rnd fileInfo s)
      | TransferRuns taskId \<Rightarrow>
          if wasPushed taskId s then s\<lparr>transfers := transfers s @ [taskId]\<rparr> else s
      | PushCallback t taskId err \<Rightarrow>
          if wasPushed taskId s then pushCallback t taskId err s else s
      | TaskFinish t queueTaskId \<Rightarrow> updateSyncStatus queueTaskId SYNC_COMPLETED None t s
      | TaskFailed t queueTaskId e \<Rightarrow> updateSyncStatus queueTaskId SYNC_FAILED (Some (message e)) t s)"

fun runSync :: "sync_event list \<Rightarrow> s3service \<Rightarrow> s3service" where
  "runSync [] s = s"
| "runSync (ev # evs) s = runSync evs (fireSync ev s)"

definition initialService :: s3service where
  "initialService =
     \<lparr>queueReady = True, syncRegistry = Map.empty, promises = Map.empty, pushed = [],
      transfers = []\<rparr>"

definition exampleFile :: file_info where
  "exampleFile =
     \<lparr>fi_filePath = ''uploads/0a1b2c3d4e5f6071-a.png'', fi_s3Key = ''0a1b2c3d4e5f6071-a.png'',
      fi_metadata = [(''contentType'', ''image/png'')]\<rparr>"

section \<open>Numbers and file names\<close>

text \<open>
  The decimal string of a chunk index is read back by \<open>parseInt\<close> as that index, so the
  chunk files of one upload have pairwise different names.
\<close>

lemma digitValue_digit: "(k::nat) < 10 \<Longrightarrow> digitValue (char_of (48 + k)) = Some k"
  by (simp add: digitValue_def Let_def)

lemma isRadixDigit_digit: "(k::nat) < 10 \<Longrightarrow> isRadixDigit 10 (char_of (48 + k))"
  by (simp add: isRadixDigit_def digitValue_digit)

lemma digitOf_digit: "(k::nat) < 10 \<Longrightarrow> digitOf (char_of (48 + k)) = k"
  by (simp add: digitOf_def digitValue_digit)

lemma digits_all: "\<forall>c \<in> set (digits n). isRadixDigit 10 c"
proof (induction n rule: digits.induct)
  case (1 n)
  show ?case
  proof (cases "n < 10")
    case True
    then show ?thesis by (simp add: digits.simps [of n] isRadixDigit_digit)
  next
    case False
    have "n mod 10 < 10" by simp
    then have "isRadixDigit 10 (char_of (48 + n mod 10))" by (rule isRadixDigit_digit)
    with False 1 show ?thesis by (simp add: digits.simps [of n])
  qed
qed

lemma digits_nonempty: "digits n \<noteq> []"
  by (subst digits.simps) simp

lemma digits_value: "foldl (\<lambda>a c. a * 10 + digitOf c) 0 (digits n) = n"
proof (induction n rule: digits.induct)
  case (1 n)
  show ?case
  proof (cases "n < 10")
    case True
    then show ?thesis by (simp add: digits.simps [of n] digitOf_digit)
  next
    case False
    have "digitOf (char_of (48 + n mod 10)) = n mod 10" by (rule digitOf_digit) simp
    with False 1 show ?thesis by (simp add: digits.simps [of n])
  qed
qed

lemma not_digit_chars:
  "\<not> isRadixDigit 10 (CHR ''x'')" "\<not> isRadixDigit 10 (CHR ''X'')"
  "\<not> isRadixDigit 10 (CHR ''-'')" "\<not> isRadixDigit 10 (CHR ''+'')"
  by (simp_all add: isRadixDigit_def digitValue_def Let_def)

lemma digit_not_ws: "isRadixDigit 10 c \<Longrightarrow> \<not> isWhiteSpace c"
  by (auto simp: isWhiteSpace_def isRadixDigit_def digitValue_def Let_def)

lemma parseInt_digits: "parseInt (digits n) = Num (int n)"
proof -
  obtain c cs where cs: "digits n = c # cs"
    using digits_nonempty [of n] by (cases "digits n") auto
  have all: "\<forall>d \<in> set (c # cs). isRadixDigit 10 d"
    using digits_all [of n] cs by simp
  then have c: "isRadixDigit 10 c" by simp
  have ws: "dropWhile isWhiteSpace (digits n) = digits n"
    using digit_not_ws [OF c] cs by simp
  have sign: "take 1 (digits n) \<noteq> ''-''" "take 1 (digits n) \<noteq> ''+''"
    using c not_digit_chars cs by auto
  have hex: "take 2 (digits n) \<noteq> ''0x''" "take 2 (digits n) \<noteq> ''0X''"
    using all not_digit_chars cs by (cases cs; auto)+
  have tw: "takeWhile (isRadixDigit 10) (digits n) = digits n"
    using digits_all [of n] by simp
  have S1: "(if take 1 (digits n) = ''+'' \<or> take 1 (digits n) = ''-'' then drop 1 (digits n)
             else digits n) = digits n"
    using sign by simp
  have sg: "(if take 1 (digits n) = ''-'' then - 1 else (1::int)) = 1"
    using sign by simp
  have hx: "(take 2 (digits n) = ''0x'' \<or> take 2 (digits n) = ''0X'') = False"
    using hex by simp
  show ?thesis
    unfolding parseInt_def Let_def ws S1 sg hx
    by (simp add: tw digits_value digits_nonempty)
qed

lemma digits_inj:
  assumes "digits i = digits j"
  shows "i = j"
proof -
  have "parseInt (digits i) = parseInt (digits j)"
    by (simp only: assms)
  then have "Num (int i) = Num (int j)"
    by (simp only: parseInt_digits)
  then show ?thesis by simp
qed

lemma chunkPath_inj: "chunkPath u i = chunkPath u j \<longleftrightarrow> i = j"
  by (auto simp: chunkPath_def dest: digits_inj)

section \<open>Unbound identifiers\<close>

lemma require_unbound:
  "resolveIdent cleanupUploadChunks_scope ''require'' = Inl (ReferenceError ''require is not defined'')"
  by (simp add: resolveIdent_def cleanupUploadChunks_scope_def esmGlobals_def)

lemma syncTaskId_unbound:
  "resolveIdent combineAndProcessChunks_scope ''syncTaskId'' = Inl (ReferenceError ''syncTaskId is not defined'')"
  by (simp add: resolveIdent_def combineAndProcessChunks_scope_def esmGlobals_def)

section \<open>Status and cancellation\<close>

text \<open>
  C6. When the session is registered and its processing lock is held, \<open>cancelUpload\<close>
  throws the conflict error \<^verbatim>\<open>Cannot cancel upload while processing\<close>, and the whole state
  (session entry, lock entry, files, cleanup registry) is what it was.
\<close>

theorem cancelUpload_locked_conflict:
  assumes "chunksTracker st uploadId = Some tracking"
    and "lockHeld st uploadId"
  shows "cancelUpload uploadId st = (Inl (Error ''Cannot cancel upload while processing''), st)"
  using assms by (simp add: cancelUpload_def)

theorem cancelUpload_locked_conflict_witness:
  "lockHeld (exampleState (Some True)) ''u1''
   \<and> cancelUpload ''u1'' (exampleState (Some True))
       = (Inl (Error ''Cannot cancel upload while processing''), exampleState (Some True))"
proof -
  have a: "chunksTracker (exampleState (Some True)) ''u1'' = Some exampleTracking"
    by (simp add: exampleState_def)
  have b: "lockHeld (exampleState (Some True)) ''u1''"
    by (simp add: exampleState_def lockHeld_def)
  show ?thesis using b cancelUpload_locked_conflict [OF a b] by simp
qed

text \<open>
  C5. The claim promises that cancelling a registered session whose lock is free deletes
  the chunk files and the temp file, removes both entries and returns CANCELLED. The code
  does not get there: \<^verbatim>\<open>cleanupUploadChunks\<close> starts with \<^verbatim>\<open>require('fs')\<close>, the module is an
  ES module, the ReferenceError is caught by \<^verbatim>\<open>cancelUpload\<close> and rethrown as
  \<^verbatim>\<open>Failed to cancel upload\<close>. For every such session the call throws and changes nothing.
\<close>

theorem cancelUpload_never_succeeds:
  assumes "chunksTracker st uploadId = Some tracking"
    and "\<not> lockHeld st uploadId"
  shows "cancelUpload uploadId st = (Inl (Error ''Failed to cancel upload: require is not defined''), st)"
  using assms by (simp add: cancelUpload_def cleanupUploadChunks_def require_unbound)

theorem cancelUpload_never_succeeds_witness:
  "\<not> lockHeld (exampleState None) ''u1''
   \<and> fst (cancelUpload ''u1'' (exampleState None))
       = Inl (Error ''Failed to cancel upload: require is not defined'')
   \<and> existsSync (chunksDir, ''u1-0'') (files (snd (cancelUpload ''u1'' (exampleState None))))
   \<and> vstatus (getUploadStatus ''u1'' (snd (cancelUpload ''u1'' (exampleState None)))) = COMPLETED"
proof -
  have a: "chunksTracker (exampleState None) ''u1'' = Some exampleTracking"
    by (simp add: exampleState_def)
  have b: "\<not> lockHeld (exampleState None) ''u1''"
    by (simp add: exampleState_def lockHeld_def)
  have c: "existsSync (chunksDir, ''u1-0'') (files (exampleState None))"
    by (simp add: exampleState_def existsSync_def)
  have d: "vstatus (getUploadStatus ''u1'' (exampleState None)) = COMPLETED"
    by (simp add: exampleState_def getUploadStatus_def lockHeld_def exampleTracking_def sizeEq_def)
  show ?thesis using b c d cancelUpload_never_succeeds [OF a b] by simp
qed

text \<open>
  C7. For an upload identifier that is not in the registry, \<open>getUploadStatus\<close> reports the
  failure as its result: the status \<^verbatim>\<open>failed\<close> with the error \<^verbatim>\<open>Upload not found\<close>, and no
  other field.
\<close>

theorem getUploadStatus_unknown:
  assumes "chunksTracker st uploadId = None"
  shows "getUploadStatus uploadId st = StatusFailure FAILED ''Upload not found''"
  using assms by (simp add: getUploadStatus_def)

theorem getUploadStatus_unknown_witness:
  "chunksTracker initialState ''u1'' = None
   \<and> getUploadStatus ''u1'' initialState = StatusFailure FAILED ''Upload not found''"
proof -
  have a: "chunksTracker initialState ''u1'' = None"
    by (simp add: initialState_def)
  show ?thesis using a getUploadStatus_unknown [OF a] by simp
qed

text \<open>
  C10. For a registered session whose received set has \<^verbatim>\<open>totalChunks\<close> elements:
  when the lock is not held, \<open>getUploadStatus\<close> reports \<^verbatim>\<open>completed\<close>; and after its
  combine has failed (the handler has deleted the lock entry and stored the status
  \<^verbatim>\<open>failed\<close> in the session) it reports \<^verbatim>\<open>completed\<close> as well, not the stored \<^verbatim>\<open>failed\<close>.
\<close>

theorem getUploadStatus_completed_when_unlocked:
  assumes tracked: "chunksTracker st uploadId = Some tracking"
    and complete: "sizeEq (length (chunks tracking)) (totalChunks tracking)"
  shows "(\<not> lockHeld st uploadId \<longrightarrow> vstatus (getUploadStatus uploadId st) = COMPLETED)
       \<and> (let st' = snd (handleChunkUpload_resume uploadId (Inl e) st) in
           (\<exists>t'. chunksTracker st' uploadId = Some t' \<and> status t' = FAILED)
           \<and> \<not> lockHeld st' uploadId
           \<and> vstatus (getUploadStatus uploadId st') = COMPLETED)"
  using assms
  by (simp add: getUploadStatus_def handleChunkUpload_resume_def markUploadAsFailed_def
      lockHeld_def Let_def)

theorem getUploadStatus_completed_when_unlocked_witness:
  "\<not> lockHeld (exampleState None) ''u1''
   \<and> status exampleTracking = FAILED
   \<and> vstatus (getUploadStatus ''u1'' (exampleState None)) = COMPLETED
   \<and> vstatus (getUploadStatus ''u1''
        (snd (handleChunkUpload_resume ''u1'' (Inl (Error ''Missing chunk file: chunks/u1-0''))
           (exampleState (Some True))))) = COMPLETED"
proof -
  have a: "chunksTracker (exampleState lock) ''u1'' = Some exampleTracking" for lock
    by (simp add: exampleState_def)
  have b: "sizeEq (length (chunks exampleTracking)) (totalChunks exampleTracking)"
    by (simp add: exampleTracking_def sizeEq_def)
  have c: "\<not> lockHeld (exampleState None) ''u1''"
    by (simp add: exampleState_def lockHeld_def)
  have d: "status exampleTracking = FAILED"
    by (simp add: exampleTracking_def)
  show ?thesis
    using c d getUploadStatus_completed_when_unlocked [OF a [of None] b]
      getUploadStatus_completed_when_unlocked [OF a [of "Some True"] b,
        of "Error ''Missing chunk file: chunks/u1-0''"]
    by (simp add: Let_def)
qed

section \<open>The chunk combiner\<close>

lemma map_of_streamWrite:
  "map_of (streamWrite p d f) = (map_of f)(p \<mapsto> (case map_of f p of None \<Rightarrow> [] | Some c \<Rightarrow> c) @ d)"
  by (simp add: streamWrite_def writeFile_def update_conv')

lemma map_of_createWriteStream:
  "map_of (createWriteStream p f) = (map_of f)(p \<mapsto> [])"
  by (simp add: createWriteStream_def writeFile_def update_conv')

lemma chunkPath_dir: "fst (chunkPath u i) = chunksDir"
  by (simp add: chunkPath_def)

lemma writeLoop_all_present:
  assumes "\<forall>i \<in> set js. map_of f (chunkPath u i) = Some (c i)"
    and "fst dest \<noteq> chunksDir"
    and "map_of f dest = Some old"
  shows "fst (writeLoop u dest js f) = Inr ()
       \<and> map_of (snd (writeLoop u dest js f)) dest = Some (old @ concat (map c js))"
  using assms
proof (induction js arbitrary: f old)
  case Nil
  then show ?case by simp
next
  case (Cons j js)
  let ?f1 = "streamWrite dest (c j) f"
  have ne: "chunkPath u i \<noteq> dest" for i
    using Cons.prems(2) chunkPath_dir [of u i] by auto
  have present: "\<forall>i \<in> set js. map_of ?f1 (chunkPath u i) = Some (c i)"
    using Cons.prems(1) ne by (simp add: map_of_streamWrite)
  have dest1: "map_of ?f1 dest = Some (old @ c j)"
    using Cons.prems(3) by (simp add: map_of_streamWrite)
  from Cons.IH [OF present Cons.prems(2) dest1] Cons.prems(1)
  show ?case by simp
qed

lemma accessChecks_fold_present:
  assumes "\<forall>i \<in> set js. existsSync (chunkPath u i) f"
  shows "fold (\<lambda>i p. if existsSync (chunkPath u i) f then p
                  else settle (Inl (Error (''Missing chunk file: '' @ pathString (chunkPath u i)))) p)
       js q = q"
  using assms by (induction js arbitrary: q) auto

lemma accessChecks_all_present:
  assumes "\<forall>i < n. existsSync (chunkPath u i) f"
  shows "accessChecks u n f = None"
  unfolding accessChecks_def using assms by (intro accessChecks_fold_present) simp

lemma combineChunks_all_present:
  assumes present: "\<forall>i < n. map_of f (chunkPath u i) = Some (c i)"
    and dir: "fst dest \<noteq> chunksDir"
    and dest: "map_of f dest = Some old"
  shows "fst (combineChunks u (Num (int n)) dest f) = Inr ()
       \<and> map_of (snd (combineChunks u (Num (int n)) dest f)) dest = Some (old @ concat (map c [0..<n]))"
proof -
  have ex: "\<forall>i < n. existsSync (chunkPath u i) f"
    using present by (simp add: existsSync_def)
  have w: "\<forall>i \<in> set [0..<n]. map_of f (chunkPath u i) = Some (c i)"
    using present by simp
  show ?thesis
    using writeLoop_all_present [OF w dir dest] accessChecks_all_present [OF ex]
    by (simp add: combineChunks_def loopBound_def outcome_def Let_def)
qed

subsection \<open>Chunks stored in any order\<close>

lemma multerStore_chunkRequest:
  assumes "u \<noteq> []" and "length p \<le> fileSizeLimit"
  shows "multerStore (chunkRequest u i n name) p f = Inr (writeFile (chunkPath u i) p f)"
  using assms
  by (simp add: multerStore_def multerFilename_def chunkRequest_def strOf_def chunkPath_def)

lemma storeChunks_lookup:
  assumes "u \<noteq> []"
    and "\<forall>s \<in> set subs. length (snd s) \<le> fileSizeLimit"
  shows "map_of (storeChunks (map (\<lambda>s. (chunkRequest u (fst s) n name, snd s)) subs) f) (chunkPath u i)
       = (case map_of (rev subs) i of None \<Rightarrow> map_of f (chunkPath u i) | Some p \<Rightarrow> Some p)"
  using assms(2)
proof (induction subs arbitrary: f)
  case Nil
  then show ?case by simp
next
  case (Cons s subs)
  obtain j p where s: "s = (j, p)" by (cases s)
  have st: "multerStore (chunkRequest u j n name) p f = Inr (writeFile (chunkPath u j) p f)"
    using Cons.prems assms(1) s by (simp add: multerStore_chunkRequest)
  have rest: "\<forall>s \<in> set subs. length (snd s) \<le> fileSizeLimit"
    using Cons.prems by simp
  show ?case
    using Cons.IH [OF rest, of "writeFile (chunkPath u j) p f"]
    by (auto simp: s st writeFile_def update_conv' chunkPath_inj map_add_def split: option.splits)
qed


lemma sort_key_fst_upt:
  assumes d: "distinct (map fst subs)" and all: "set (map fst subs) = {0..<n::nat}"
  shows "map fst (sort_key fst subs) = [0..<n]"
proof -
  let ?ks = "map fst (sort_key fst subs)"
  have s: "sorted ?ks" by simp
  have st: "set ?ks = {0..<n}" using all by simp
  have "length ?ks = length (map fst subs)" by simp
  also have "\<dots> = card (set (map fst subs))" by (rule distinct_card [OF d, symmetric])
  also have "\<dots> = card (set ?ks)" by simp
  finally have eq: "length ?ks = card (set ?ks)" .
  have "distinct ?ks" by (rule card_distinct) (rule eq [symmetric])
  with s st show ?thesis
    by (intro sorted_distinct_set_unique) simp_all
qed

text \<open>
  C3. Let the chunks \<open>0..<n\<close> of an upload be submitted once each, in any order (\<open>subs\<close>
  lists index and payload in arrival order), and stored by the upload facility. Then the
  combiner, writing to the freshly opened temp file as the pipeline does, succeeds, and the
  temp file holds the payloads concatenated in ascending index order.
\<close>

theorem combined_artifact_is_ordered_concatenation:
  assumes d: "distinct (map fst subs)"
    and all: "set (map fst subs) = {0..<n}"
    and size: "\<forall>s \<in> set subs. length (snd s) \<le> fileSizeLimit"
    and uid: "uploadId \<noteq> []"
  shows "let f1 = storeChunks (map (\<lambda>s. (chunkRequest uploadId (fst s) n name, snd s)) subs) f0;
             dest = (processingDir, ''temp_'' @ uploadId);
             c = combineChunks uploadId (Num (int n)) dest (createWriteStream dest f1)
         in fst c = Inr () \<and> map_of (snd c) dest = Some (concat (map snd (sort_key fst subs)))"
proof -
  define f1 where "f1 = storeChunks (map (\<lambda>s. (chunkRequest uploadId (fst s) n name, snd s)) subs) f0"
  define dest where "dest = (processingDir, ''temp_'' @ uploadId)"
  define pay where "pay i = (case map_of subs i of None \<Rightarrow> [] | Some p \<Rightarrow> p)" for i
  have member: "map_of subs (fst e) = Some (snd e)" if "e \<in> set subs" for e
    using that d map_of_is_SomeI [of subs "fst e" "snd e"] by simp
  have drev: "distinct (map fst (rev subs))"
    using distinct_rev [of "map fst subs"] d by (simp only: rev_map)
  have stored: "\<forall>i < n. map_of f1 (chunkPath uploadId i) = Some (pay i)"
  proof (intro allI impI)
    fix i assume "i < n"
    then have "i \<in> fst ` set subs" using all by simp
    then obtain e where e: "e \<in> set subs" "fst e = i" by auto
    have fwd: "map_of subs i = Some (snd e)" using member e by auto
    have "(i, snd e) \<in> set (rev subs)" using e by auto
    then have bwd: "map_of (rev subs) i = Some (snd e)"
      using drev by (rule_tac map_of_is_SomeI)
    show "map_of f1 (chunkPath uploadId i) = Some (pay i)"
      unfolding f1_def by (simp add: storeChunks_lookup [OF uid size] fwd bwd pay_def)
  qed
  have dir: "fst dest \<noteq> chunksDir" by (simp add: dest_def)
  have other: "chunkPath uploadId i \<noteq> dest" for i
    by (simp add: dest_def chunkPath_def)
  have stored1: "\<forall>i < n. map_of (createWriteStream dest f1) (chunkPath uploadId i) = Some (pay i)"
    using stored other by (simp add: map_of_createWriteStream)
  have empty: "map_of (createWriteStream dest f1) dest = Some []"
    by (simp add: map_of_createWriteStream)
  have ks: "map fst (sort_key fst subs) = [0..<n]"
    by (rule sort_key_fst_upt [OF d all])
  have "map snd (sort_key fst subs) = map pay (map fst (sort_key fst subs))"
    using member by (simp add: pay_def)
  then have sorted: "map snd (sort_key fst subs) = map pay [0..<n]"
    by (simp only: ks)
  have res: "fst (combineChunks uploadId (Num (int n)) dest (createWriteStream dest f1)) = Inr ()
      \<and> map_of (snd (combineChunks uploadId (Num (int n)) dest (createWriteStream dest f1))) dest
          = Some (concat (map pay [0..<n]))"
    using combineChunks_all_present [OF stored1 dir empty] by simp
  show ?thesis
    unfolding Let_def f1_def [symmetric] dest_def [symmetric] sorted by (rule res)
qed

theorem combined_artifact_is_ordered_concatenation_witness:
  "distinct (map fst [(1::nat, ''def''), (0, ''abc'')])
   \<and> set (map fst [(1::nat, ''def''), (0, ''abc'')]) = {0..<2}
   \<and> map_of (snd (combineChunks ''u1'' (Num 2) (processingDir, ''temp_u1'')
         (createWriteStream (processingDir, ''temp_u1'')
            (storeChunks [(chunkRequest ''u1'' 1 2 ''a.png'', ''def''),
                          (chunkRequest ''u1'' 0 2 ''a.png'', ''abc'')] []))))
        (processingDir, ''temp_u1'') = Some ''abcdef''"
proof -
  have d: "distinct (map fst [(1::nat, ''def''), (0, ''abc'')])" by simp
  have a: "set (map fst [(1::nat, ''def''), (0, ''abc'')]) = {0..<2}" by auto
  have s: "\<forall>s \<in> set [(1::nat, ''def''), (0, ''abc'')]. length (snd s) \<le> fileSizeLimit"
    by (simp add: fileSizeLimit_def)
  have u: "''u1'' \<noteq> []" by simp
  from combined_artifact_is_ordered_concatenation [OF d a s u, of "''a.png''" "[]"] d a
  show ?thesis by (simp add: Let_def)
qed

text \<open>
  C4. With chunk 0 present and chunk 1 missing, the combiner rejects with the
  missing-chunk error, as the claim says, but it has written chunk 0 to the destination:
  the \<^verbatim>\<open>catch\<close> handler of each access check turns the failed check into a fulfilled
  promise, so \<^verbatim>\<open>Promise.all\<close> never rejects and the write loop runs up to the first missing
  chunk.
\<close>

theorem combineChunks_partial_write:
  "combineChunks ''u1'' (Num 2) (processingDir, ''temp_u1'')
      (createWriteStream (processingDir, ''temp_u1'') [((chunksDir, ''u1-0''), ''abc'')])
   = (Inl (Error ''Missing chunk file: chunks/u1-1''),
      [((chunksDir, ''u1-0''), ''abc''), ((processingDir, ''temp_u1''), ''abc'')])"
  by code_simp

section \<open>The combine pipeline\<close>

lemma writeLoop_succeeds:
  assumes "\<forall>i \<in> set js. existsSync (chunkPath u i) f"
    and "fst dest \<noteq> chunksDir"
  shows "fst (writeLoop u dest js f) = Inr ()"
  using assms
proof (induction js arbitrary: f)
  case Nil
  then show ?case by simp
next
  case (Cons j js)
  from Cons.prems(1) obtain d where d: "map_of f (chunkPath u j) = Some d"
    by (auto simp: existsSync_def split: option.splits)
  have ne: "chunkPath u i \<noteq> dest" for i
    using Cons.prems(2) chunkPath_dir [of u i] by auto
  have "\<forall>i \<in> set js. existsSync (chunkPath u i) (streamWrite dest d f)"
    using Cons.prems(1) ne by (simp add: existsSync_def map_of_streamWrite)
  from Cons.IH [OF this Cons.prems(2)] d show ?case by simp
qed

lemma combineChunks_succeeds:
  assumes present: "\<forall>i < loopBound nchunks. existsSync (chunkPath u i) f"
    and dir: "fst dest \<noteq> chunksDir"
  shows "fst (combineChunks u nchunks dest f) = Inr ()"
proof -
  have w: "\<forall>i \<in> set [0..<loopBound nchunks]. existsSync (chunkPath u i) f"
    using present by simp
  show ?thesis
    using writeLoop_succeeds [OF w dir] accessChecks_all_present [OF present]
    by (simp add: combineChunks_def outcome_def Let_def)
qed

lemma existsSync_createWriteStream:
  "p \<noteq> dest \<Longrightarrow> existsSync p (createWriteStream dest f) = existsSync p f"
  by (simp add: existsSync_def map_of_createWriteStream)

lemma cleanupUpload_tracker [simp]:
  "chunksTracker (cleanupUpload u b st) = chunksTracker st"
  "processingLock (cleanupUpload u b st) = processingLock st"
  by (simp_all add: cleanupUpload_def Let_def)

lemma registerForCleanup_fields [simp]:
  "chunksTracker (registerForCleanup u t tmp cs fin st) = chunksTracker st"
  "processingLock (registerForCleanup u t tmp cs fin st) = processingLock st"
  "files (registerForCleanup u t tmp cs fin st) = files st"
  by (simp_all add: registerForCleanup_def)

lemma pipeline_try_tracker:
  "chunksTracker (snd (combineAndProcessChunks_try e u n fname opts tmp st)) = chunksTracker st
   \<and> processingLock (snd (combineAndProcessChunks_try e u n fname opts tmp st)) = processingLock st"
  by (simp add: combineAndProcessChunks_try_def Let_def split: sum.splits)

lemma pipeline_tracker [simp]:
  "chunksTracker (snd (combineAndProcessChunks e u n fname opts st)) = chunksTracker st"
  "processingLock (snd (combineAndProcessChunks e u n fname opts st)) = processingLock st"
  using pipeline_try_tracker [of e u n fname opts "(processingDir, ''temp_'' @ u)"
      "st\<lparr>files := createWriteStream (processingDir, ''temp_'' @ u) (files st)\<rparr>"]
  by (simp_all add: combineAndProcessChunks_def Let_def split: sum.splits)

text \<open>The pipeline never returns a result.\<close>

lemma pipeline_try_never_returns:
  "fst (combineAndProcessChunks_try e u n fname opts tmp st) \<noteq> Inr v"
  by (simp add: combineAndProcessChunks_try_def Let_def syncTaskId_unbound split: sum.splits)

lemma pipeline_success_path:
  assumes present: "\<forall>i < loopBound nchunks. existsSync (chunkPath u i) (files st)"
    and ok: "\<forall>i out opts f. \<exists>r. fst (transform e i out opts f) = Inr r \<and> success r"
  shows "fst (combineAndProcessChunks e u nchunks fname opts st)
       = Inl (ReferenceError ''syncTaskId is not defined'')"
proof -
  let ?tmp = "(processingDir, ''temp_'' @ u)"
  let ?f0 = "createWriteStream ?tmp (files st)"
  have dir: "fst ?tmp \<noteq> chunksDir" by simp
  have ne: "chunkPath u i \<noteq> ?tmp" for i
    using chunkPath_dir [of u i] by auto
  have p0: "\<forall>i < loopBound nchunks. existsSync (chunkPath u i) ?f0"
    using present ne by (simp add: existsSync_createWriteStream)
  have c: "fst (combineChunks u nchunks ?tmp ?f0) = Inr ()"
    by (rule combineChunks_succeeds [OF p0 dir])
  obtain r where r: "fst (transform e ?tmp (uploadDir, finalRandom e @ ''-'' @ strOf fname) opts
                        (snd (combineChunks u nchunks ?tmp ?f0))) = Inr r" "success r"
    using ok by blast
  have t: "fst (combineAndProcessChunks_try e u nchunks fname opts ?tmp (st\<lparr>files := ?f0\<rparr>))
        = Inl (ReferenceError ''syncTaskId is not defined'')"
    using c r by (simp add: combineAndProcessChunks_try_def Let_def syncTaskId_unbound)
  show ?thesis
    using t by (simp add: combineAndProcessChunks_def Let_def)
qed


lemma lockHeld_cong: "processingLock st1 = processingLock st \<Longrightarrow> lockHeld st1 = lockHeld st"
  by (simp add: lockHeld_def fun_eq_iff)

lemma enter_cases:
  assumes "handleChunkUpload_enter t err req st = (x, st1)"
  shows "files st1 = files st \<and> cleanupRegistry st1 = cleanupRegistry st \<and>
     (case x of
        Done r \<Rightarrow> processingLock st1 = processingLock st
      | AwaitCombine u n fname opts \<Rightarrow>
          \<not> lockHeld st u \<and> processingLock st1 = (processingLock st)(u \<mapsto> True)
          \<and> body_uploadId req = Some u \<and> err = None \<and> req_file req
          \<and> (\<exists>t1. chunksTracker st1 u = Some t1 \<and> totalChunks t1 = n \<and> filename t1 = fname
                 \<and> sizeEq (length (chunks t1)) n))"
  using assms
  by (auto simp: handleChunkUpload_enter_def Let_def updateUploadProgress_def lockHeld_def
      split: option.splits if_splits)

lemma enter_tracker:
  assumes "handleChunkUpload_enter t err req st = (x, st1)"
    and "chunksTracker st1 v = Some t1"
  shows "\<exists>t0. chunksTracker st v = Some t0 \<and>
     (if body_uploadId req = Some v \<and> err = None \<and> req_file req
      then chunks t1 = setAdd (parseIntField (body_chunkNumber req)) (chunks t0)
           \<and> totalChunks t1 = parseIntField (body_totalChunks req)
      else chunks t1 = chunks t0 \<and> totalChunks t1 = totalChunks t0)"
  using assms
  by (auto simp: handleChunkUpload_enter_def Let_def updateUploadProgress_def
      split: option.splits if_splits)

lemma resume_lock:
  "processingLock (snd (handleChunkUpload_resume u r st)) = (processingLock st)(u := None)"
  by (simp add: handleChunkUpload_resume_def markUploadAsFailed_def Let_def
      split: sum.splits option.splits)

lemma resume_tracker:
  assumes "chunksTracker (snd (handleChunkUpload_resume u r st)) v = Some t1"
  shows "\<exists>t0. chunksTracker st v = Some t0 \<and> chunks t1 = chunks t0 \<and> totalChunks t1 = totalChunks t0"
  using assms
  by (auto simp: handleChunkUpload_resume_def markUploadAsFailed_def Let_def
      split: sum.splits option.splits if_splits)

lemma cancel_lock:
  "lockHeld st v \<Longrightarrow> lockHeld (snd (cancelUpload u st)) v"
  by (auto simp: cancelUpload_def cleanupUploadChunks_def lockHeld_def Let_def
      split: option.splits sum.splits prod.splits)

lemma handle_tracker:
  assumes "chunksTracker (snd (handleChunkUpload e err req st)) v = Some t1"
  shows "\<exists>t0. chunksTracker st v = Some t0 \<and>
     (if body_uploadId req = Some v \<and> err = None \<and> req_file req
      then chunks t1 = setAdd (parseIntField (body_chunkNumber req)) (chunks t0)
           \<and> totalChunks t1 = parseIntField (body_totalChunks req)
      else chunks t1 = chunks t0 \<and> totalChunks t1 = totalChunks t0)"
proof -
  obtain x st1 where en: "handleChunkUpload_enter (now e) err req st = (x, st1)"
    by (cases "handleChunkUpload_enter (now e) err req st")
  show ?thesis
  proof (cases x)
    case (Done r)
    with en assms have "chunksTracker st1 v = Some t1"
      by (simp add: handleChunkUpload_def)
    from enter_tracker [OF en this] show ?thesis .
  next
    case (AwaitCombine u n fname opts)
    with en assms have
      "chunksTracker (snd (handleChunkUpload_resume u
          (fst (combineAndProcessChunks e u n fname opts st1))
          (snd (combineAndProcessChunks e u n fname opts st1)))) v = Some t1"
      by (simp add: handleChunkUpload_def Let_def)
    from resume_tracker [OF this] obtain t2 where
      "chunksTracker st1 v = Some t2" "chunks t1 = chunks t2" "totalChunks t1 = totalChunks t2"
      by auto
    with enter_tracker [OF en, of v t2] show ?thesis by auto
  qed
qed

text \<open>
  C1. The claim promises that a pipeline with all chunks present and a succeeding
  transform removes the session and returns the artifact metadata with a sync task
  identifier. In the code that path ends in a ReferenceError: the returned object reads
  \<^verbatim>\<open>syncTaskId\<close> and \<^verbatim>\<open>s3Key\<close>, which nothing declares or assigns. The error is caught by
  the pipeline's own \<^verbatim>\<open>catch\<close> (cleanup as failed) and by the handler, which keeps the
  session and marks it failed. For a request that starts the pipeline, with every chunk
  file present and a transform that succeeds:
\<close>

theorem handleChunkUpload_success_path_throws:
  assumes enter: "handleChunkUpload_enter (now e) None req st = (AwaitCombine uploadId nchunks fname opts, st1)"
    and present: "\<forall>i < loopBound nchunks. existsSync (chunkPath uploadId i) (files st)"
    and ok: "\<forall>i out opts f. \<exists>r. fst (transform e i out opts f) = Inr r \<and> success r"
  shows "fst (handleChunkUpload e None req st) = Inl (ReferenceError ''syncTaskId is not defined'')
       \<and> (\<exists>t. chunksTracker (snd (handleChunkUpload e None req st)) uploadId = Some t
              \<and> status t = FAILED)"
proof -
  from enter_cases [OF enter] obtain t1 where
    f1: "files st1 = files st" and t1: "chunksTracker st1 uploadId = Some t1"
    by auto
  have present1: "\<forall>i < loopBound nchunks. existsSync (chunkPath uploadId i) (files st1)"
    using present f1 by simp
  have p: "fst (combineAndProcessChunks e uploadId nchunks fname opts st1)
           = Inl (ReferenceError ''syncTaskId is not defined'')"
    by (rule pipeline_success_path [OF present1 ok])
  show ?thesis
    using enter p t1
    by (simp add: handleChunkUpload_def Let_def handleChunkUpload_resume_def
        markUploadAsFailed_def)
qed

lemma chunkRequest_fields [simp]:
  "req_file (chunkRequest u i n name)"
  "body_uploadId (chunkRequest u i n name) = Some u"
  "parseIntField (body_chunkNumber (chunkRequest u i n name)) = Num (int i)"
  "parseIntField (body_totalChunks (chunkRequest u i n name)) = Num (int n)"
  "body_originalFilename (chunkRequest u i n name) = Some name"
  by (simp_all add: chunkRequest_def parseIntField_def parseInt_digits)

lemma digits_0: "digits 0 = ''0''"
  by code_simp

theorem handleChunkUpload_success_path_throws_witness:
  "fst (handleChunkUpload exampleEnv None (chunkRequest ''u1'' 0 1 ''a.png'') freshState)
     = Inl (ReferenceError ''syncTaskId is not defined'')
   \<and> vstatus (getUploadStatus ''u1''
        (snd (handleChunkUpload exampleEnv None (chunkRequest ''u1'' 0 1 ''a.png'') freshState)))
       = COMPLETED"
proof -
  let ?req = "chunkRequest ''u1'' 0 1 ''a.png''"
  obtain st1 where en: "handleChunkUpload_enter (now exampleEnv) None ?req freshState
      = (AwaitCombine ''u1'' (Num 1) (Some ''a.png'') (processingOptions ?req), st1)"
    by (simp add: handleChunkUpload_enter_def freshState_def initializeUpload_def initialState_def
        Let_def setAdd_def sizeEq_def updateUploadProgress_def lockHeld_def)
  have present: "\<forall>i < loopBound (Num 1). existsSync (chunkPath ''u1'' i) (files freshState)"
    by (simp add: loopBound_def freshState_def existsSync_def chunkPath_def digits_0)
  have ok: "\<forall>i out opts f. \<exists>r. fst (transform exampleEnv i out opts f) = Inr r \<and> success r"
    by (simp add: exampleEnv_def copyTransform_def)
  from handleChunkUpload_success_path_throws [OF en present ok]
  obtain t where r: "fst (handleChunkUpload exampleEnv None ?req freshState)
        = Inl (ReferenceError ''syncTaskId is not defined'')"
     and t: "chunksTracker (snd (handleChunkUpload exampleEnv None ?req freshState)) ''u1'' = Some t"
    by auto
  from handle_tracker [OF t] have c: "chunks t = [Num 0]" "totalChunks t = Num 1"
    by (auto simp: freshState_def initializeUpload_def initialState_def setAdd_def)
  have l: "\<not> lockHeld (snd (handleChunkUpload exampleEnv None ?req freshState)) ''u1''"
    using en by (simp add: handleChunkUpload_def Let_def lockHeld_def resume_lock)
  show ?thesis
    using r t c l by (simp add: getUploadStatus_def sizeEq_def Let_def)
qed

section \<open>The processing gate under interleaving\<close>

lemma initializeUpload_lock:
  "processingLock (snd (initializeUpload u t st)) = processingLock st"
  by (simp add: initializeUpload_def)

lemma fire_invariant:
  assumes inv: "gateInvariant s" and f: "fire ev s = Some s1"
  shows "gateInvariant s1"
proof -
  obtain st run where s: "s = (st, run)" by (cases s)
  from inv s have d: "distinct run" and h: "\<forall>v \<in> set run. lockHeld st v"
    by (simp_all add: gateInvariant_def list_all_iff)
  show ?thesis
  proof (cases ev)
    case (Initialize u t)
    with f s have s1: "s1 = (snd (initializeUpload u t st), run)"
      by (simp add: fire_def Let_def)
    have "lockHeld (snd (initializeUpload u t st)) = lockHeld st"
      by (rule lockHeld_cong) (rule initializeUpload_lock)
    with d h show ?thesis
      by (simp add: s1 gateInvariant_def list_all_iff)
  next
    case (ChunkRequest t err req)
    obtain x st1 where en: "handleChunkUpload_enter t err req st = (x, st1)"
      by (cases "handleChunkUpload_enter t err req st")
    show ?thesis
    proof (cases x)
      case (Done r)
      with f s ChunkRequest en have s1: "s1 = (st1, run)"
        by (simp add: fire_def Let_def)
      from enter_cases [OF en] Done have "processingLock st1 = processingLock st"
        by simp
      then have "lockHeld st1 = lockHeld st"
        by (rule lockHeld_cong)
      with d h show ?thesis
        by (simp add: s1 gateInvariant_def list_all_iff)
    next
      case (AwaitCombine u n fname opts)
      with f s ChunkRequest en have s1: "s1 = (st1, u # run)"
        by (simp add: fire_def Let_def)
      from enter_cases [OF en] AwaitCombine have
        free: "\<not> lockHeld st u" and l: "processingLock st1 = (processingLock st)(u \<mapsto> True)"
        by simp_all
      have held: "lockHeld st1 v = (v = u \<or> lockHeld st v)" for v
        by (simp add: lockHeld_def l)
      have "u \<notin> set run"
        using h free by blast
      with d h held show ?thesis
        by (simp add: s1 gateInvariant_def list_all_iff)
    qed
  next
    case (PipelineSettles u r)
    with f s have s1: "s1 = (snd (handleChunkUpload_resume u r st), remove1 u run)"
      by (simp add: fire_def Let_def split: if_splits)
    have held: "lockHeld (snd (handleChunkUpload_resume u r st)) v = (v \<noteq> u \<and> lockHeld st v)" for v
      by (simp add: lockHeld_def resume_lock)
    have notin: "u \<notin> set (remove1 u run)"
      using d by simp
    have sub: "set (remove1 u run) \<subseteq> set run"
      by (rule set_remove1_subset)
    have "\<forall>v \<in> set (remove1 u run). v \<noteq> u \<and> lockHeld st v"
      using notin sub h by blast
    with d show ?thesis
      by (simp add: s1 gateInvariant_def list_all_iff held distinct_remove1)
  next
    case (Cancel u)
    with f s have s1: "s1 = (snd (cancelUpload u st), run)"
      by (simp add: fire_def Let_def)
    have "\<forall>v \<in> set run. lockHeld (snd (cancelUpload u st)) v"
      using h cancel_lock by blast
    with d show ?thesis
      by (simp add: s1 gateInvariant_def list_all_iff)
  next
    case (FileActivity fl c)
    with f s have s1: "s1 = (st\<lparr>files := fl, cleanupRegistry := c\<rparr>, run)"
      by (simp add: fire_def Let_def)
    have "lockHeld (st\<lparr>files := fl, cleanupRegistry := c\<rparr>) = lockHeld st"
      by (rule lockHeld_cong) simp
    with d h show ?thesis
      by (simp add: s1 gateInvariant_def list_all_iff)
  qed
qed

lemma execute_invariant:
  assumes "gateInvariant s" and "execute evs s = Some s1"
  shows "gateInvariant s1"
  using assms
proof (induction evs arbitrary: s)
  case Nil
  then show ?case by simp
next
  case (Cons ev evs)
  then show ?case
    by (auto split: option.splits dest: fire_invariant)
qed

lemma distinct_count_le_1: "distinct xs \<Longrightarrow> count_list xs x \<le> 1"
  by (induction xs) auto

lemma enter_while_locked:
  assumes held: "lockHeld st u" and uid: "body_uploadId req = Some u" and received: "req_file req"
    and complete: "completesSet req st"
  shows "\<exists>k n st1. handleChunkUpload_enter t None req st
           = (Done (Inr (ChunkAck ''Chunk received, processing in progress'' k n)), st1)"
  using assms
  by (auto simp: handleChunkUpload_enter_def completesSet_def Let_def updateUploadProgress_def
      lockHeld_def split: option.splits)

text \<open>
  C2. In every state a run of the server reaches: at most one pipeline is in flight for
  an upload identifier, and while one is in flight its lock is held; a chunk request that
  completes the set while the lock is held is answered with the acknowledgment
  \<^verbatim>\<open>Chunk received, processing in progress\<close> and starts no pipeline (the list of pipelines
  in flight is unchanged); and when a pipeline settles, with a result or with an error, the
  handler leaves no lock entry for the upload.
\<close>

theorem processing_gate_single_pipeline:
  assumes run: "execute evs (initialState, []) = Some (st, running)"
  shows "count_list running uploadId \<le> 1
       \<and> (uploadId \<in> set running \<longrightarrow> lockHeld st uploadId)
       \<and> (\<forall>t req. lockHeld st uploadId \<and> body_uploadId req = Some uploadId \<and> req_file req
                   \<and> completesSet req st \<longrightarrow>
            (\<exists>k n st1. handleChunkUpload_enter t None req st
                 = (Done (Inr (ChunkAck ''Chunk received, processing in progress'' k n)), st1)
               \<and> fire (ChunkRequest t None req) (st, running) = Some (st1, running)))
       \<and> (\<forall>r. processingLock (snd (handleChunkUpload_resume uploadId r st)) uploadId = None)"
proof -
  have "gateInvariant (initialState, [])"
    by (simp add: gateInvariant_def)
  from execute_invariant [OF this run] have inv: "distinct running" "list_all (lockHeld st) running"
    by (simp_all add: gateInvariant_def)
  have one: "count_list running uploadId \<le> 1"
    using inv(1) by (rule distinct_count_le_1)
  have gate: "uploadId \<in> set running \<longrightarrow> lockHeld st uploadId"
    using inv(2) by (simp add: list_all_iff)
  have ack: "\<exists>k n st1. handleChunkUpload_enter t None req st
                 = (Done (Inr (ChunkAck ''Chunk received, processing in progress'' k n)), st1)
               \<and> fire (ChunkRequest t None req) (st, running) = Some (st1, running)"
    if "lockHeld st uploadId" "body_uploadId req = Some uploadId" "req_file req" "completesSet req st"
    for t req
    using enter_while_locked [OF that, of t] by (auto simp: fire_def Let_def)
  have release: "processingLock (snd (handleChunkUpload_resume uploadId r st)) uploadId = None" for r
    by (simp add: resume_lock)
  from one gate ack release show ?thesis by blast
qed


theorem processing_gate_single_pipeline_witness:
  "(case execute exampleEvents (initialState, []) of
      None \<Rightarrow> False
    | Some s \<Rightarrow>
        snd s = [''u1''] \<and> count_list (snd s) ''u1'' \<le> 1 \<and> lockHeld (fst s) ''u1''
        \<and> fst (handleChunkUpload_enter 2 None (chunkRequest ''u1'' 0 1 ''a.png'') (fst s))
            = Done (Inr (ChunkAck ''Chunk received, processing in progress'' 1 (Num 1)))
        \<and> fire (ChunkRequest 2 None (chunkRequest ''u1'' 0 1 ''a.png'')) s
            = Some (snd (handleChunkUpload_enter 2 None (chunkRequest ''u1'' 0 1 ''a.png'') (fst s)), [''u1'']))"
proof -
  let ?req = "chunkRequest ''u1'' 0 1 ''a.png''"
  obtain st where run: "execute exampleEvents (initialState, []) = Some (st, [''u1''])"
    and tr: "chunksTracker st ''u1'' = Some
              \<lparr>chunks = [Num 0], totalChunks = Num 1, filename = Some ''a.png'', timestamp = 0,
               status = INITIALIZING, error = None, lastChunkReceived = Some 1,
               chunksReceived = Some 1\<rparr>"
    by (simp add: exampleEvents_def fire_def Let_def initializeUpload_def initialState_def
        handleChunkUpload_enter_def setAdd_def sizeEq_def updateUploadProgress_def lockHeld_def)
  have c: "completesSet ?req st"
    using tr by (simp add: completesSet_def setAdd_def sizeEq_def)
  from processing_gate_single_pipeline [OF run, of "''u1''"]
  have one: "count_list [''u1''] ''u1'' \<le> 1" and held: "lockHeld st ''u1''"
    and ack: "\<exists>k n st1. handleChunkUpload_enter 2 None ?req st
                 = (Done (Inr (ChunkAck ''Chunk received, processing in progress'' k n)), st1)
               \<and> fire (ChunkRequest 2 None ?req) (st, [''u1'']) = Some (st1, [''u1''])"
    using c by simp_all
  from ack obtain k n st1 where
    en: "handleChunkUpload_enter 2 None ?req st
           = (Done (Inr (ChunkAck ''Chunk received, processing in progress'' k n)), st1)"
    and fi: "fire (ChunkRequest 2 None ?req) (st, [''u1'']) = Some (st1, [''u1''])"
    by blast
  have kn: "k = 1 \<and> n = Num 1"
    using en tr held
    by (simp add: handleChunkUpload_enter_def Let_def setAdd_def sizeEq_def split: if_splits)
  show ?thesis
    using run one held en fi kn by simp
qed

section \<open>The size of the received set\<close>

lemma inRange_length:
  assumes "inRange N xs"
  shows "length xs \<le> N"
proof -
  have "length xs = card (set xs)"
    using assms by (simp add: inRange_def distinct_card)
  also have "\<dots> \<le> card ((\<lambda>i. Num (int i)) ` {0..<N})"
    using assms by (intro card_mono) (simp_all add: inRange_def)
  also have "\<dots> \<le> card {0..<N}"
    by (rule card_image_le) simp
  finally show ?thesis by simp
qed

lemma inRange_setAdd:
  assumes "inRange N xs" and "i < N"
  shows "inRange N (setAdd (Num (int i)) xs)"
  using assms by (auto simp: inRange_def setAdd_def)

lemma withinDeclared_size:
  assumes "withinDeclared N t"
  shows "sizeWithinTotal t"
  using assms inRange_length [of N "chunks t"]
  by (auto simp: withinDeclared_def sizeWithinTotal_def)

lemma receiveChunks_withinDeclared:
  assumes reqs: "\<forall>c \<in> set cs. body_uploadId (snd c) = Some uploadId \<longrightarrow>
                 parseIntField (body_totalChunks (snd c)) = Num (int N)
                 \<and> (\<exists>i < N. parseIntField (body_chunkNumber (snd c)) = Num (int i))"
    and start: "\<forall>t. chunksTracker st uploadId = Some t \<longrightarrow> withinDeclared N t"
    and live: "chunksTracker (receiveChunks cs st) uploadId = Some t"
  shows "withinDeclared N t"
  using assms
proof (induction cs arbitrary: st)
  case Nil
  then show ?case by simp
next
  case (Cons c cs)
  let ?st1 = "snd (handleChunkUpload (fst c) None (snd c) st)"
  have step: "\<forall>t. chunksTracker ?st1 uploadId = Some t \<longrightarrow> withinDeclared N t"
  proof (intro allI impI)
    fix t1 assume t1: "chunksTracker ?st1 uploadId = Some t1"
    from handle_tracker [OF t1] obtain t0 where
      t0: "chunksTracker st uploadId = Some t0"
      and ch: "if body_uploadId (snd c) = Some uploadId \<and> req_file (snd c)
               then chunks t1 = setAdd (parseIntField (body_chunkNumber (snd c))) (chunks t0)
                    \<and> totalChunks t1 = parseIntField (body_totalChunks (snd c))
               else chunks t1 = chunks t0 \<and> totalChunks t1 = totalChunks t0"
      by (auto split: if_splits)
    from Cons.prems(2) t0 have r0: "withinDeclared N t0" by simp
    show "withinDeclared N t1"
    proof (cases "body_uploadId (snd c) = Some uploadId \<and> req_file (snd c)")
      case True
      with Cons.prems(1) obtain i where i: "i < N"
        "parseIntField (body_chunkNumber (snd c)) = Num (int i)"
        "parseIntField (body_totalChunks (snd c)) = Num (int N)"
        by auto
      from r0 i(1) have "inRange N (setAdd (Num (int i)) (chunks t0))"
        by (simp add: withinDeclared_def inRange_setAdd)
      with True ch i show ?thesis by (simp add: withinDeclared_def)
    next
      case False
      with ch r0 show ?thesis by (simp add: withinDeclared_def)
    qed
  qed
  have rest: "\<forall>c \<in> set cs. body_uploadId (snd c) = Some uploadId \<longrightarrow>
                 parseIntField (body_totalChunks (snd c)) = Num (int N)
                 \<and> (\<exists>i < N. parseIntField (body_chunkNumber (snd c)) = Num (int i))"
    using Cons.prems(1) by simp
  from Cons.IH [OF rest step] Cons.prems(3) show ?case by simp
qed

text \<open>
  C8, as amended. Take a freshly initialised session and any sequence of chunk requests,
  each handled to its end, in which every request for this session declares the same
  \<^verbatim>\<open>totalChunks\<close> \<open>N\<close> and a chunk index below \<open>N\<close>. Then after every prefix of the
  sequence, if the session is still registered, the size of its received set is at most
  its \<^verbatim>\<open>totalChunks\<close>, and at most \<open>N\<close>.
\<close>

theorem received_chunks_bounded:
  assumes fresh: "chunksTracker st uploadId = Some t0" "chunks t0 = []" "totalChunks t0 = Num 0"
    and reqs: "\<forall>c \<in> set cs. body_uploadId (snd c) = Some uploadId \<longrightarrow>
                 parseIntField (body_totalChunks (snd c)) = Num (int N)
                 \<and> (\<exists>i < N. parseIntField (body_chunkNumber (snd c)) = Num (int i))"
  shows "\<forall>k t. chunksTracker (receiveChunks (take k cs) st) uploadId = Some t \<longrightarrow>
           sizeWithinTotal t \<and> length (chunks t) \<le> N"
proof (intro allI impI)
  fix k t
  assume live: "chunksTracker (receiveChunks (take k cs) st) uploadId = Some t"
  have r: "\<forall>c \<in> set (take k cs). body_uploadId (snd c) = Some uploadId \<longrightarrow>
                 parseIntField (body_totalChunks (snd c)) = Num (int N)
                 \<and> (\<exists>i < N. parseIntField (body_chunkNumber (snd c)) = Num (int i))"
    using reqs by (auto dest: in_set_takeD)
  have s: "\<forall>t. chunksTracker st uploadId = Some t \<longrightarrow> withinDeclared N t"
    using fresh by (simp add: withinDeclared_def inRange_def)
  have w: "withinDeclared N t"
    by (rule receiveChunks_withinDeclared [OF r s live])
  then have "inRange N (chunks t)" by (simp add: withinDeclared_def)
  with w show "sizeWithinTotal t \<and> length (chunks t) \<le> N"
    by (simp add: withinDeclared_size inRange_length)
qed

theorem received_chunks_bounded_witness:
  "(case chunksTracker (receiveChunks (take 2 [(exampleEnv, chunkRequest ''u1'' 1 2 ''a.png''),
                                                (exampleEnv, chunkRequest ''u1'' 0 2 ''a.png'')])
                          freshState) ''u1'' of
      None \<Rightarrow> False
    | Some t \<Rightarrow> sizeWithinTotal t \<and> length (chunks t) \<le> 2)"
proof -
  let ?cs = "[(exampleEnv, chunkRequest ''u1'' 1 2 ''a.png''),
              (exampleEnv, chunkRequest ''u1'' 0 2 ''a.png'')]"
  obtain t0 where fresh: "chunksTracker freshState ''u1'' = Some t0" "chunks t0 = []"
    "totalChunks t0 = Num 0"
    by (simp add: freshState_def initializeUpload_def initialState_def)
  have reqs: "\<forall>c \<in> set ?cs. body_uploadId (snd c) = Some ''u1'' \<longrightarrow>
                 parseIntField (body_totalChunks (snd c)) = Num (int 2)
                 \<and> (\<exists>i < 2. parseIntField (body_chunkNumber (snd c)) = Num (int i))"
    by auto
  have live: "chunksTracker (receiveChunks (take 2 ?cs) freshState) ''u1'' \<noteq> None"
    by code_simp
  then obtain t where t: "chunksTracker (receiveChunks (take 2 ?cs) freshState) ''u1'' = Some t"
    by blast
  from received_chunks_bounded [OF fresh reqs, rule_format, OF t] t
  show ?thesis by simp
qed

text \<open>
  C8, as stated, fails: indices are not checked against \<^verbatim>\<open>totalChunks\<close>. A fresh session
  receives chunk 5 of 1 (the set is complete by size, the combine fails on the missing
  chunk 0 and the session is kept) and then chunk 6 of 1: the status view shows two chunks
  received of a total of one.
\<close>

theorem received_chunks_exceed_total:
  "getUploadStatus ''u1''
     (receiveChunks [(exampleEnv, chunkRequest ''u1'' 5 1 ''a.png''),
                     (exampleEnv, chunkRequest ''u1'' 6 1 ''a.png'')] outOfRangeStart)
   = StatusView IN_PROGRESS 2 (Num 1) (Some ''a.png'') 0 ''inactive''"
  by code_simp

section \<open>The sync queue\<close>

lemma fireSync_resolved:
  assumes "promises (fireSync ev s) taskId = Some (Resolved v)"
  shows "promises s taskId = Some (Resolved v)
       \<or> (v = taskId \<and> (\<exists>t2. ev = PushCallback t2 taskId None))"
proof (cases ev)
  case (Submit t rnd fileInfo)
  with assms show ?thesis
    by (auto simp: fireSync_def queueForSync_def Let_def split: if_splits)
next
  case (TransferRuns tid)
  with assms show ?thesis
    by (auto simp: fireSync_def split: if_splits)
next
  case (PushCallback t tid err)
  with assms show ?thesis
    by (auto simp: fireSync_def pushCallback_def settlePromise_def updateSyncStatus_def
        split: if_splits option.splits promise.splits)
next
  case (TaskFinish t qid)
  with assms show ?thesis
    by (auto simp: fireSync_def updateSyncStatus_def split: option.splits)
next
  case (TaskFailed t qid e)
  with assms show ?thesis
    by (auto simp: fireSync_def updateSyncStatus_def split: option.splits)
qed

lemma runSync_resolved:
  assumes "promises (runSync evs s) taskId = Some (Resolved v)"
  shows "promises s taskId = Some (Resolved v)
       \<or> (v = taskId \<and> (\<exists>t2. PushCallback t2 taskId None \<in> set evs))"
  using assms
proof (induction evs arbitrary: s)
  case Nil
  then show ?case by simp
next
  case (Cons ev evs)
  from Cons.prems have "promises (runSync evs (fireSync ev s)) taskId = Some (Resolved v)"
    by simp
  from Cons.IH [OF this] show ?case
  proof
    assume "promises (fireSync ev s) taskId = Some (Resolved v)"
    from fireSync_resolved [OF this] show ?thesis by auto
  next
    assume "v = taskId \<and> (\<exists>t2. PushCallback t2 taskId None \<in> set evs)"
    then show ?thesis by auto
  qed
qed


lemma makeTaskId_example: "makeTaskId 7 ''k3x9q2'' = ''sync_7_k3x9q2''"
  by code_simp



end
